theory Spec2Isabelle
  imports Main
begin

section \<open>Python values and string primitives used by \<open>autogen_wrapper.py\<close>\<close>

text \<open>
  Names, prompts, commands and error messages are character lists (\<open>string\<close>). The
  content of a message, whose characters the termination predicates classify, is a
  Python \<open>str\<close> held as the list of its Unicode code points (\<open>ustr\<close>); \<open>codes\<close>
  gives the code points of a literal.
\<close>

type_synonym ustr = "nat list"

definition codes :: "string \<Rightarrow> ustr" where
  "codes s = map of_char s"

datatype exn =
    ValueError string
  | KeyError string
  | IndexError string
  | BadRequestError string
  | APITimeoutError string
  | RateLimitError string

datatype pyval = PNone | PStr ustr | PBool bool

fun truthy :: "pyval \<Rightarrow> bool" where
  "truthy PNone = False"
| "truthy (PStr s) = (s \<noteq> [])"
| "truthy (PBool b) = b"

text \<open>\<open>str(v)\<close> for a value that is a string or \<open>None\<close>.\<close>

fun str :: "ustr option \<Rightarrow> ustr" where
  "str None = codes ''None''"
| "str (Some s) = s"

text \<open>
  The code points that \<open>str.isspace\<close> accepts and \<open>str.rstrip()\<close> removes: the ASCII
  controls 9 to 13 and 28 to 31, the space, U+0085, U+00A0, U+1680, U+2000 to U+200A,
  U+2028, U+2029, U+202F, U+205F and U+3000.
\<close>

definition isspace :: "nat \<Rightarrow> bool" where
  "isspace c =
     ((9 \<le> c \<and> c \<le> 13) \<or> (28 \<le> c \<and> c \<le> 32) \<or> c = 133 \<or> c = 160 \<or> c = 5760 \<or>
      (8192 \<le> c \<and> c \<le> 8202) \<or> c = 8232 \<or> c = 8233 \<or> c = 8239 \<or> c = 8287 \<or> c = 12288)"

definition rstrip :: "ustr \<Rightarrow> ustr" where
  "rstrip s = rev (dropWhile isspace (rev s))"

text \<open>
  \<open>str.upper\<close> replaces every code point by its full upper-case mapping in the Unicode
  character database (version 14.0, the one of CPython 3.11), which is one to three code
  points long. \<open>upper_special\<close> lists the code points beyond ASCII whose mapping is
  longer than one code point or lands in ASCII. \<open>upper_ranges\<close> lists the others that
  change, as runs \<open>(lo, hi, step, u)\<close>: the code points \<open>lo, lo + step, \<dots>, hi\<close> map to
  \<open>u, u + step, \<dots>\<close>. Every other code point is its own upper case.
\<close>

definition upper_special :: "(nat \<times> nat list) list" where
  "upper_special =
     [
      (223, [83, 83]), (305, [73]), (329, [700, 78]), (383, [83]),
      (496, [74, 780]), (912, [921, 776, 769]), (944, [933, 776, 769]), (1415, [1333, 1362]),
      (7830, [72, 817]), (7831, [84, 776]), (7832, [87, 778]), (7833, [89, 778]),
      (7834, [65, 702]), (8016, [933, 787]), (8018, [933, 787, 768]), (8020, [933, 787, 769]),
      (8022, [933, 787, 834]), (8064, [7944, 921]), (8065, [7945, 921]), (8066, [7946, 921]),
      (8067, [7947, 921]), (8068, [7948, 921]), (8069, [7949, 921]), (8070, [7950, 921]),
      (8071, [7951, 921]), (8072, [7944, 921]), (8073, [7945, 921]), (8074, [7946, 921]),
      (8075, [7947, 921]), (8076, [7948, 921]), (8077, [7949, 921]), (8078, [7950, 921]),
      (8079, [7951, 921]), (8080, [7976, 921]), (8081, [7977, 921]), (8082, [7978, 921]),
      (8083, [7979, 921]), (8084, [7980, 921]), (8085, [7981, 921]), (8086, [7982, 921]),
      (8087, [7983, 921]), (8088, [7976, 921]), (8089, [7977, 921]), (8090, [7978, 921]),
      (8091, [7979, 921]), (8092, [7980, 921]), (8093, [7981, 921]), (8094, [7982, 921]),
      (8095, [7983, 921]), (8096, [8040, 921]), (8097, [8041, 921]), (8098, [8042, 921]),
      (8099, [8043, 921]), (8100, [8044, 921]), (8101, [8045, 921]), (8102, [8046, 921]),
      (8103, [8047, 921]), (8104, [8040, 921]), (8105, [8041, 921]), (8106, [8042, 921]),
      (8107, [8043, 921]), (8108, [8044, 921]), (8109, [8045, 921]), (8110, [8046, 921]),
      (8111, [8047, 921]), (8114, [8122, 921]), (8115, [913, 921]), (8116, [902, 921]),
      (8118, [913, 834]), (8119, [913, 834, 921]), (8124, [913, 921]), (8130, [8138, 921]),
      (8131, [919, 921]), (8132, [905, 921]), (8134, [919, 834]), (8135, [919, 834, 921]),
      (8140, [919, 921]), (8146, [921, 776, 768]), (8147, [921, 776, 769]), (8150, [921, 834]),
      (8151, [921, 776, 834]), (8162, [933, 776, 768]), (8163, [933, 776, 769]), (8164, [929, 787]),
      (8166, [933, 834]), (8167, [933, 776, 834]), (8178, [8186, 921]), (8179, [937, 921]),
      (8180, [911, 921]), (8182, [937, 834]), (8183, [937, 834, 921]), (8188, [937, 921]),
      (64256, [70, 70]), (64257, [70, 73]), (64258, [70, 76]), (64259, [70, 70, 73]),
      (64260, [70, 70, 76]), (64261, [83, 84]), (64262, [83, 84]), (64275, [1348, 1350]),
      (64276, [1348, 1333]), (64277, [1348, 1339]), (64278, [1358, 1350]), (64279, [1348, 1341])
     ]"

definition upper_ranges :: "(nat \<times> nat \<times> nat \<times> nat) list" where
  "upper_ranges =
     [
      (181, 181, 1, 924), (224, 246, 1, 192), (248, 254, 1, 216), (255, 255, 1, 376),
      (257, 303, 2, 256), (307, 311, 2, 306), (314, 328, 2, 313), (331, 375, 2, 330),
      (378, 382, 2, 377), (384, 384, 1, 579), (387, 389, 2, 386), (392, 392, 1, 391),
      (396, 396, 1, 395), (402, 402, 1, 401), (405, 405, 1, 502), (409, 409, 1, 408),
      (410, 410, 1, 573), (414, 414, 1, 544), (417, 421, 2, 416), (424, 424, 1, 423),
      (429, 429, 1, 428), (432, 432, 1, 431), (436, 438, 2, 435), (441, 441, 1, 440),
      (445, 445, 1, 444), (447, 447, 1, 503), (453, 453, 1, 452), (454, 454, 1, 452),
      (456, 456, 1, 455), (457, 457, 1, 455), (459, 459, 1, 458), (460, 460, 1, 458),
      (462, 476, 2, 461), (477, 477, 1, 398), (479, 495, 2, 478), (498, 498, 1, 497),
      (499, 499, 1, 497), (501, 501, 1, 500), (505, 543, 2, 504), (547, 563, 2, 546),
      (572, 572, 1, 571), (575, 576, 1, 11390), (578, 578, 1, 577), (583, 591, 2, 582),
      (592, 592, 1, 11375), (593, 593, 1, 11373), (594, 594, 1, 11376), (595, 595, 1, 385),
      (596, 596, 1, 390), (598, 599, 1, 393), (601, 601, 1, 399), (603, 603, 1, 400),
      (604, 604, 1, 42923), (608, 608, 1, 403), (609, 609, 1, 42924), (611, 611, 1, 404),
      (613, 613, 1, 42893), (614, 614, 1, 42922), (616, 616, 1, 407), (617, 617, 1, 406),
      (618, 618, 1, 42926), (619, 619, 1, 11362), (620, 620, 1, 42925), (623, 623, 1, 412),
      (625, 625, 1, 11374), (626, 626, 1, 413), (629, 629, 1, 415), (637, 637, 1, 11364),
      (640, 640, 1, 422), (642, 642, 1, 42949), (643, 643, 1, 425), (647, 647, 1, 42929),
      (648, 648, 1, 430), (649, 649, 1, 580), (650, 651, 1, 433), (652, 652, 1, 581),
      (658, 658, 1, 439), (669, 669, 1, 42930), (670, 670, 1, 42928), (837, 837, 1, 921),
      (881, 883, 2, 880), (887, 887, 1, 886), (891, 893, 1, 1021), (940, 940, 1, 902),
      (941, 943, 1, 904), (945, 961, 1, 913), (962, 962, 1, 931), (963, 971, 1, 931),
      (972, 972, 1, 908), (973, 974, 1, 910), (976, 976, 1, 914), (977, 977, 1, 920),
      (981, 981, 1, 934), (982, 982, 1, 928), (983, 983, 1, 975), (985, 1007, 2, 984),
      (1008, 1008, 1, 922), (1009, 1009, 1, 929), (1010, 1010, 1, 1017), (1011, 1011, 1, 895),
      (1013, 1013, 1, 917), (1016, 1016, 1, 1015), (1019, 1019, 1, 1018), (1072, 1103, 1, 1040),
      (1104, 1119, 1, 1024), (1121, 1153, 2, 1120), (1163, 1215, 2, 1162), (1218, 1230, 2, 1217),
      (1231, 1231, 1, 1216), (1233, 1327, 2, 1232), (1377, 1414, 1, 1329), (4304, 4346, 1, 7312),
      (4349, 4351, 1, 7357), (5112, 5117, 1, 5104), (7296, 7296, 1, 1042), (7297, 7297, 1, 1044),
      (7298, 7298, 1, 1054), (7299, 7300, 1, 1057), (7301, 7301, 1, 1058), (7302, 7302, 1, 1066),
      (7303, 7303, 1, 1122), (7304, 7304, 1, 42570), (7545, 7545, 1, 42877), (7549, 7549, 1, 11363),
      (7566, 7566, 1, 42950), (7681, 7829, 2, 7680), (7835, 7835, 1, 7776), (7841, 7935, 2, 7840),
      (7936, 7943, 1, 7944), (7952, 7957, 1, 7960), (7968, 7975, 1, 7976), (7984, 7991, 1, 7992),
      (8000, 8005, 1, 8008), (8017, 8023, 2, 8025), (8032, 8039, 1, 8040), (8048, 8049, 1, 8122),
      (8050, 8053, 1, 8136), (8054, 8055, 1, 8154), (8056, 8057, 1, 8184), (8058, 8059, 1, 8170),
      (8060, 8061, 1, 8186), (8112, 8113, 1, 8120), (8126, 8126, 1, 921), (8144, 8145, 1, 8152),
      (8160, 8161, 1, 8168), (8165, 8165, 1, 8172), (8526, 8526, 1, 8498), (8560, 8575, 1, 8544),
      (8580, 8580, 1, 8579), (9424, 9449, 1, 9398), (11312, 11359, 1, 11264), (11361, 11361, 1, 11360),
      (11365, 11365, 1, 570), (11366, 11366, 1, 574), (11368, 11372, 2, 11367), (11379, 11379, 1, 11378),
      (11382, 11382, 1, 11381), (11393, 11491, 2, 11392), (11500, 11502, 2, 11499), (11507, 11507, 1, 11506),
      (11520, 11557, 1, 4256), (11559, 11559, 1, 4295), (11565, 11565, 1, 4301), (42561, 42605, 2, 42560),
      (42625, 42651, 2, 42624), (42787, 42799, 2, 42786), (42803, 42863, 2, 42802), (42874, 42876, 2, 42873),
      (42879, 42887, 2, 42878), (42892, 42892, 1, 42891), (42897, 42899, 2, 42896), (42900, 42900, 1, 42948),
      (42903, 42921, 2, 42902), (42933, 42947, 2, 42932), (42952, 42954, 2, 42951), (42961, 42961, 1, 42960),
      (42967, 42969, 2, 42966), (42998, 42998, 1, 42997), (43859, 43859, 1, 42931), (43888, 43967, 1, 5024),
      (65345, 65370, 1, 65313), (66600, 66639, 1, 66560), (66776, 66811, 1, 66736), (66967, 66977, 1, 66928),
      (66979, 66993, 1, 66940), (66995, 67001, 1, 66956), (67003, 67004, 1, 66964), (68800, 68850, 1, 68736),
      (71872, 71903, 1, 71840), (93792, 93823, 1, 93760), (125218, 125251, 1, 125184)
     ]"

definition in_range :: "nat \<Rightarrow> nat \<times> nat \<times> nat \<times> nat \<Rightarrow> bool" where
  "in_range c r = (case r of (lo, hi, step, u) \<Rightarrow> lo \<le> c \<and> c \<le> hi \<and> (c - lo) mod step = 0)"

definition to_upper :: "nat \<Rightarrow> nat list" where
  "to_upper c =
     (if c < 128 then (if 97 \<le> c \<and> c \<le> 122 then [c - 32] else [c])
      else case map_of upper_special c of
             Some v \<Rightarrow> v
           | None \<Rightarrow>
               (case find (in_range c) upper_ranges of
                  Some (lo, hi, step, u) \<Rightarrow> [u + (c - lo)]
                | None \<Rightarrow> [c]))"

definition upper :: "ustr \<Rightarrow> ustr" where
  "upper s = concat (map to_upper s)"

definition endswith :: "ustr \<Rightarrow> ustr \<Rightarrow> bool" where
  "endswith s suffix = (length suffix \<le> length s \<and> drop (length s - length suffix) s = suffix)"

section \<open>Messages and termination predicates\<close>

text \<open>
  A message is a dictionary from field names to values; a value is a string or \<open>None\<close>
  (\<open>Some None\<close> is a key bound to Python's \<open>None\<close>, \<open>None\<close> a missing key).
\<close>

type_synonym message = "string \<rightharpoonup> ustr option"

text \<open>\<open>x.get("content", "")\<close>\<close>

definition get_content :: "message \<Rightarrow> ustr option" where
  "get_content x = (case x ''content'' of None \<Rightarrow> Some [] | Some v \<Rightarrow> v)"

text \<open>
  The lambdas of lines 138 and 156:
  \<open>x.get("content", "") and x.get("content", "").rstrip().upper().endswith(SENTINEL)\<close>.
  Python's \<open>and\<close> yields its left operand when that is falsy, and the right one otherwise.
\<close>

definition termination_lambda :: "ustr \<Rightarrow> message \<Rightarrow> pyval" where
  "termination_lambda sentinel x =
     (case get_content x of
        None \<Rightarrow> PNone
      | Some s \<Rightarrow> if s = [] then PStr s else PBool (endswith (upper (rstrip s)) sentinel))"

definition user_proxy_is_termination_msg :: "message \<Rightarrow> pyval" where
  "user_proxy_is_termination_msg = termination_lambda (codes ''##TERMINATE##'')"

definition browser_nav_executor_is_termination_msg :: "message \<Rightarrow> pyval" where
  "browser_nav_executor_is_termination_msg = termination_lambda (codes ''##TERMINATE SUBTASK##'')"

section \<open>Agents and the wrapper object\<close>

text \<open>
  \<open>autogen.UserProxyAgent(...)\<close> is kept as the record of its keyword arguments.
  \<open>BrowserNavAgent(config_list, executor).agent\<close> and \<open>PlannerAgent(config_list).agent\<close>
  are built by classes of \<open>ae.core.agents\<close>; they are kept as constructors that record
  the arguments they were given.
\<close>

type_synonym config = "(string \<times> string) list"

record code_exec_cfg =
  last_n_messages :: nat
  work_dir :: string
  use_docker :: bool

datatype agent =
    UserProxyAgent
      (name: string)
      (system_message: string)
      (is_termination_msg: "message \<Rightarrow> pyval")
      (human_input_mode: string)
      (max_consecutive_auto_reply: int)
      (code_execution_config: "code_exec_cfg option")
  | BrowserNavAgent_agent "config list option" agent
  | PlannerAgent_agent "config list option"

text \<open>
  \<open>agent.reset()\<close> clears the conversation state of an agent; the agents of this
  development carry no conversation state, so it returns the agent.
\<close>

definition reset :: "agent \<Rightarrow> agent" where
  "reset a = a"

record wrapper =
  number_of_rounds :: int
  agents_map :: "(string \<rightharpoonup> agent) option"
  config_list :: "config list option"

text \<open>\<open>AutogenWrapper.__init__\<close>\<close>

definition init :: "int \<Rightarrow> wrapper" where
  "init max_chat_round =
     \<lparr>number_of_rounds = max_chat_round, agents_map = None, config_list = None\<rparr>"

text \<open>
  \<open>LLM_PROMPTS\<close> is the dictionary of \<open>ae.core.prompts\<close>; it is a parameter here, and
  \<open>LLM_PROMPTS[k]\<close> raises \<open>KeyError\<close> on a key it does not hold.
\<close>

type_synonym prompts = "string \<rightharpoonup> string"

definition getitem :: "(string \<rightharpoonup> 'a) \<Rightarrow> string \<Rightarrow> exn + 'a" where
  "getitem d k = (case d k of None \<Rightarrow> Inl (KeyError k) | Some v \<Rightarrow> Inr v)"

definition create_user_proxy_agent :: "prompts \<Rightarrow> wrapper \<Rightarrow> exn + agent" where
  "create_user_proxy_agent LLM_PROMPTS self =
     (case getitem LLM_PROMPTS ''USER_AGENT_PROMPT'' of
        Inl e \<Rightarrow> Inl e
      | Inr p \<Rightarrow>
          Inr (UserProxyAgent ''user_proxy'' p user_proxy_is_termination_msg ''NEVER''
                 (number_of_rounds self) None))"

definition create_browser_nav_executor_agent :: "prompts \<Rightarrow> wrapper \<Rightarrow> exn + agent" where
  "create_browser_nav_executor_agent LLM_PROMPTS self =
     (case getitem LLM_PROMPTS ''BROWSER_NAV_EXECUTOR_PROMPT'' of
        Inl e \<Rightarrow> Inl e
      | Inr p \<Rightarrow>
          Inr (UserProxyAgent ''browser_nav_executor'' p browser_nav_executor_is_termination_msg
                 ''NEVER'' (number_of_rounds self)
                 (Some \<lparr>last_n_messages = 1, work_dir = ''tasks'', use_docker = False\<rparr>)))"

definition create_browser_nav_agent :: "wrapper \<Rightarrow> agent \<Rightarrow> agent" where
  "create_browser_nav_agent self user_proxy_agent =
     BrowserNavAgent_agent (config_list self) user_proxy_agent"

definition create_planner_agent :: "wrapper \<Rightarrow> agent" where
  "create_planner_agent self = PlannerAgent_agent (config_list self)"

section \<open>Registry construction: \<open>__initialize_agents\<close>\<close>

text \<open>
  The \<open>for\<close> loop of lines 113 to 123 over what is left of \<open>agents_needed\<close>; \<open>ex\<close> is
  the executor built before the loop and \<open>m\<close> the \<open>agents_map\<close> under construction.
\<close>

fun add_agents :: "wrapper \<Rightarrow> agent \<Rightarrow> string list \<Rightarrow> (string \<rightharpoonup> agent) \<Rightarrow> exn + (string \<rightharpoonup> agent)" where
  "add_agents self ex [] m = Inr m"
| "add_agents self ex (agent_needed # rest) m =
     (if agent_needed = ''browser_nav_agent'' then
        add_agents self ex rest (m(''browser_nav_agent'' \<mapsto> reset (create_browser_nav_agent self ex)))
      else if agent_needed = ''planner_agent'' then
        add_agents self ex rest (m(''planner_agent'' \<mapsto> reset (create_planner_agent self)))
      else Inl (ValueError (''Unknown agent type: '' @ agent_needed)))"

text \<open>
  \<open>__initialize_agents\<close> receives the list object of its caller and removes entries from
  it in place (\<open>list.remove\<close> deletes the first occurrence and raises \<open>ValueError\<close> when
  there is none). The result is the raised exception or the returned \<open>agents_map\<close>,
  paired with the contents of \<open>agents_needed\<close> when the call ends.
\<close>

definition initialize_agents ::
    "prompts \<Rightarrow> wrapper \<Rightarrow> string list \<Rightarrow> (exn + (string \<rightharpoonup> agent)) \<times> string list" where
  "initialize_agents LLM_PROMPTS self agents_needed =
     (if ''user_proxy'' \<notin> set agents_needed then
        (Inl (ValueError ''user_proxy agent is required in the list of needed agents.''),
         agents_needed)
      else
        case create_user_proxy_agent LLM_PROMPTS self of
          Inl e \<Rightarrow> (Inl e, agents_needed)
        | Inr user_proxy_agent \<Rightarrow>
            let m1 = Map.empty(''user_proxy'' \<mapsto> reset user_proxy_agent);
                needed1 = remove1 ''user_proxy'' agents_needed
            in case create_browser_nav_executor_agent LLM_PROMPTS self of
                 Inl e \<Rightarrow> (Inl e, needed1)
               | Inr browser_nav_executor \<Rightarrow>
                   let m2 = m1(''browser_nav_executor'' \<mapsto> reset browser_nav_executor)
                   in if ''browser_nav_executor'' \<notin> set needed1 then
                        (Inl (ValueError ''list.remove(x): x not in list''), needed1)
                      else
                        let needed2 = remove1 ''browser_nav_executor'' needed1
                        in (add_agents self browser_nav_executor needed2 m2, needed2))"

section \<open>The nested-chat callback and the delegation link\<close>

text \<open>
  \<open>nested_chat_message\<close> (lines 61 to 68) returns \<open>f"{messages[0]['content']}"\<close>:
  indexing an empty list raises \<open>IndexError\<close>, a message without the key raises
  \<open>KeyError\<close>, and the f-string formats the value with \<open>str\<close>.
\<close>

definition nested_chat_message :: "agent \<Rightarrow> message list \<Rightarrow> agent \<Rightarrow> config \<Rightarrow> exn + ustr" where
  "nested_chat_message recipient_agent messages sender_agent config =
     (case messages of
        [] \<Rightarrow> Inl (IndexError ''list index out of range'')
      | m0 # _ \<Rightarrow> (case getitem m0 ''content'' of Inl e \<Rightarrow> Inl e | Inr v \<Rightarrow> Inr (str v)))"

record nested_chat =
  sender :: agent
  recipient :: agent
  message :: "agent \<Rightarrow> message list \<Rightarrow> agent \<Rightarrow> config \<Rightarrow> exn + ustr"
  max_turns :: nat
  summary_method :: string

record registration =
  trigger :: agent
  chat_queue :: "nested_chat list"

text \<open>
  The call of lines 70 to 82. Its arguments are evaluated in order, each
  \<open>self.agents_map[k]\<close> raising \<open>KeyError\<close> on a role that was not built; the value is
  the registration handed to \<open>register_nested_chats\<close> of the \<open>user_proxy\<close> agent.
\<close>

definition register_nested_chats :: "(string \<rightharpoonup> agent) \<Rightarrow> exn + registration" where
  "register_nested_chats m =
     (case getitem m ''user_proxy'' of
        Inl e \<Rightarrow> Inl e
      | Inr up \<Rightarrow>
     (case getitem m ''browser_nav_executor'' of
        Inl e \<Rightarrow> Inl e
      | Inr ex \<Rightarrow>
     (case getitem m ''browser_nav_agent'' of
        Inl e \<Rightarrow> Inl e
      | Inr nav \<Rightarrow>
     (case getitem m ''planner_agent'' of
        Inl e \<Rightarrow> Inl e
      | Inr pl \<Rightarrow>
          Inr \<lparr>trigger = pl,
               chat_queue =
                 [\<lparr>sender = ex, recipient = nav, message = nested_chat_message,
                   max_turns = 2, summary_method = ''last_msg''\<rparr>]\<rparr>))))"

section \<open>\<open>AutogenWrapper.create\<close>\<close>

text \<open>
  The process state \<open>create\<close> touches: the environment variables, the variables of the
  \<open>.env\<close> file that \<open>load_dotenv\<close> reads (it keeps a variable that is already set), and
  the temporary files left on disk, each held as the configuration list dumped into it.
\<close>

record world =
  environ :: "string \<rightharpoonup> string"
  dotenv :: "string \<rightharpoonup> string"
  tempfiles :: "config list list"

definition load_dotenv :: "world \<Rightarrow> world" where
  "load_dotenv w = w\<lparr>environ := dotenv w ++ environ w\<rparr>"

text \<open>
  \<open>autogen.config_list_from_json(file, filter_dict={"model": {"gpt-4-turbo-preview"}})\<close>
  on the contents of the file: the entries whose model is in the filter set.
\<close>

definition config_list_from_json :: "config list \<Rightarrow> config list" where
  "config_list_from_json contents =
     filter (\<lambda>c. map_of c ''model'' = Some ''gpt-4-turbo-preview'') contents"

text \<open>
  What \<open>create\<close> leaves behind: the exception it raised (\<open>None\<close> when it returned
  \<open>self\<close>), the wrapper object as it stands then, the process state, the contents of the
  role list, and the registrations made on the \<open>user_proxy\<close> agent.
\<close>

record create_outcome =
  raised :: "exn option"
  self_after :: wrapper
  world_after :: world
  needed_after :: "string list"
  nested_chats :: "registration list"

definition create :: "prompts \<Rightarrow> string list option \<Rightarrow> int \<Rightarrow> world \<Rightarrow> create_outcome" where
  "create LLM_PROMPTS agents_needed max_chat_round w =
     (let needed =
            (case agents_needed of
               None \<Rightarrow> [''user_proxy'', ''browser_nav_executor'', ''planner_agent'', ''browser_nav_agent'']
             | Some l \<Rightarrow> l);
          self0 = init max_chat_round;
          w1 = load_dotenv w;
          w2 = w1\<lparr>environ := (environ w1)(''AUTOGEN_USE_DOCKER'' \<mapsto> ''False'')\<rparr>
      in case getitem (environ w2) ''OPENAI_API_KEY'' of
           Inl e \<Rightarrow>
             \<lparr>raised = Some e, self_after = self0, world_after = w2, needed_after = needed,
              nested_chats = []\<rparr>
         | Inr key \<Rightarrow>
             let env_var = [[(''model'', ''gpt-4-turbo-preview''), (''api_key'', key)]];
                 w3 = w2\<lparr>tempfiles := tempfiles w2 @ [env_var]\<rparr>;
                 self1 = self0\<lparr>config_list := Some (config_list_from_json env_var)\<rparr>
             in case initialize_agents LLM_PROMPTS self1 needed of
                  (Inl e, needed') \<Rightarrow>
                    \<lparr>raised = Some e, self_after = self1, world_after = w3, needed_after = needed',
                     nested_chats = []\<rparr>
                | (Inr m, needed') \<Rightarrow>
                    let self2 = self1\<lparr>agents_map := Some m\<rparr>
                    in case register_nested_chats m of
                         Inl e \<Rightarrow>
                           \<lparr>raised = Some e, self_after = self2, world_after = w3,
                            needed_after = needed', nested_chats = []\<rparr>
                       | Inr r \<Rightarrow>
                           \<lparr>raised = None, self_after = self2, world_after = w3,
                            needed_after = needed', nested_chats = [r]\<rparr>)"

text \<open>
  The environment once \<open>load_dotenv()\<close> and the assignment of line 52 have run; the
  first thing \<open>create\<close> does to the process state.
\<close>

definition env_step :: "world \<Rightarrow> string \<rightharpoonup> string" where
  "env_step w = (dotenv w ++ environ w)(''AUTOGEN_USE_DOCKER'' \<mapsto> ''False'')"

section \<open>\<open>string.Template.substitute\<close>\<close>

text \<open>
  The default template syntax: \<open>$$\<close> is a dollar sign, \<open>$name\<close> and \<open>${name}\<close> are
  placeholders with \<open>name\<close> matching \<open>[_a-zA-Z][_a-zA-Z0-9]*\<close> (the longest match), and any
  other \<open>$\<close> raises \<open>ValueError\<close> (whose message, here without the line and column, is
  not used by the wrapper). A placeholder that the mapping does not hold raises
  \<open>KeyError\<close>. Substituted values are not scanned again.
\<close>

definition is_id_start :: "char \<Rightarrow> bool" where
  "is_id_start c =
     (let n = (of_char c :: nat) in n = 95 \<or> (97 \<le> n \<and> n \<le> 122) \<or> (65 \<le> n \<and> n \<le> 90))"

definition is_id_char :: "char \<Rightarrow> bool" where
  "is_id_char c = (let n = (of_char c :: nat) in is_id_start c \<or> (48 \<le> n \<and> n \<le> 57))"

definition braced_ok :: "string \<Rightarrow> bool" where
  "braced_ok r =
     (case r of
        [] \<Rightarrow> False
      | d # _ \<Rightarrow>
          is_id_start d \<and>
          (case dropWhile is_id_char r of [] \<Rightarrow> False | x # _ \<Rightarrow> x = CHR ''}''))"

function substitute :: "string \<Rightarrow> (string \<rightharpoonup> string) \<Rightarrow> exn + string" where
  "substitute [] mapping = Inr []"
| "substitute (c # rest) mapping =
     (if c \<noteq> CHR ''$'' then map_sum id ((#) c) (substitute rest mapping)
      else case rest of
        [] \<Rightarrow> Inl (ValueError ''Invalid placeholder in string'')
      | d # rest' \<Rightarrow>
          if d = CHR ''$'' then map_sum id ((#) (CHR ''$'')) (substitute rest' mapping)
          else if is_id_start d then
            (case getitem mapping (takeWhile is_id_char rest) of
               Inl e \<Rightarrow> Inl e
             | Inr v \<Rightarrow> map_sum id ((@) v) (substitute (dropWhile is_id_char rest) mapping))
          else if d = CHR ''{'' \<and> braced_ok rest' then
            (case getitem mapping (takeWhile is_id_char rest') of
               Inl e \<Rightarrow> Inl e
             | Inr v \<Rightarrow>
                 map_sum id ((@) v) (substitute (tl (dropWhile is_id_char rest')) mapping))
          else Inl (ValueError ''Invalid placeholder in string''))"
  by pat_completeness auto
termination
proof (relation "measure (\<lambda>(s, m). length s)")
  show "wf (measure (\<lambda>(s, m). length s))" by simp
next
  fix c :: char and rest :: string and mapping :: "string \<rightharpoonup> string"
  show "((rest, mapping), c # rest, mapping) \<in> measure (\<lambda>(s, m). length s)" by simp
next
  fix c d :: char and rest rest' :: string and mapping :: "string \<rightharpoonup> string"
  assume "rest = d # rest'"
  then show "((rest', mapping), c # rest, mapping) \<in> measure (\<lambda>(s, m). length s)" by simp
next
  fix c :: char and rest :: string and mapping :: "string \<rightharpoonup> string"
  have "length (dropWhile is_id_char rest) \<le> length rest" by (rule length_dropWhile_le)
  then show "((dropWhile is_id_char rest, mapping), c # rest, mapping)
               \<in> measure (\<lambda>(s, m). length s)" by simp
next
  fix c d :: char and rest rest' :: string and mapping :: "string \<rightharpoonup> string"
  assume r: "rest = d # rest'"
  have "length (tl (dropWhile is_id_char rest')) \<le> length (dropWhile is_id_char rest')" by simp
  also have "\<dots> \<le> length rest'" by (rule length_dropWhile_le)
  finally show "((tl (dropWhile is_id_char rest'), mapping), c # rest, mapping)
                  \<in> measure (\<lambda>(s, m). length s)" using r by simp
qed

section \<open>\<open>process_command\<close>\<close>

text \<open>Lines 205 to 207: \<open>if current_url:\<close> holds for a string that is not empty.\<close>

definition current_url_prompt_segment :: "string option \<Rightarrow> string" where
  "current_url_prompt_segment current_url =
     (case current_url of
        None \<Rightarrow> []
      | Some u \<Rightarrow> if u \<noteq> [] then ''Current URL: '' @ u else [])"

text \<open>Line 209.\<close>

definition render_prompt :: "prompts \<Rightarrow> string \<Rightarrow> string option \<Rightarrow> exn + string" where
  "render_prompt LLM_PROMPTS command current_url =
     (case getitem LLM_PROMPTS ''COMMAND_EXECUTION_PROMPT'' of
        Inl e \<Rightarrow> Inl e
      | Inr t \<Rightarrow>
          substitute t
            [''command'' \<mapsto> command,
             ''current_url_prompt_segment'' \<mapsto> current_url_prompt_segment current_url])"

text \<open>
  The body of the \<open>try\<close> block. \<open>a_initiate_chat\<close> is the conversation run by the
  library against the language-model backend; it is a parameter that yields the exception
  the conversation raised, or \<open>None\<close> when it returned.
\<close>

type_synonym chat = "agent \<Rightarrow> agent \<Rightarrow> string \<Rightarrow> exn option"

definition try_body :: "chat \<Rightarrow> wrapper \<Rightarrow> string \<Rightarrow> exn option" where
  "try_body a_initiate_chat self prompt =
     (case agents_map self of
        None \<Rightarrow> Some (ValueError ''Agents map is not initialized.'')
      | Some m \<Rightarrow>
          (case getitem m ''user_proxy'' of
             Inl e \<Rightarrow> Some e
           | Inr up \<Rightarrow>
               (case getitem m ''planner_agent'' of
                  Inl e \<Rightarrow> Some e
                | Inr pl \<Rightarrow> a_initiate_chat up pl prompt)))"

text \<open>
  \<open>process_command\<close> returns nothing; its outcome is the exception that leaves it
  (\<open>None\<close> when it returns) and the records it handed to the logger. The only handler
  is \<open>except openai.BadRequestError\<close>.
\<close>

definition process_command ::
    "prompts \<Rightarrow> chat \<Rightarrow> wrapper \<Rightarrow> string \<Rightarrow> string option \<Rightarrow> exn option \<times> (string \<times> string) list" where
  "process_command LLM_PROMPTS a_initiate_chat self command current_url =
     (case render_prompt LLM_PROMPTS command current_url of
        Inl e \<Rightarrow> (Some e, [])
      | Inr prompt \<Rightarrow>
          let info = (''INFO'', ''Prompt for command: '' @ prompt)
          in case try_body a_initiate_chat self prompt of
               Some (BadRequestError bre) \<Rightarrow>
                 (None,
                  [info,
                   (''ERROR'',
                    ''Unable to process command: '' @ [CHR 0x22] @ command @ [CHR 0x22] @ ''. '' @ bre)])
             | r \<Rightarrow> (r, [info]))"

section \<open>The nested exchange\<close>

text \<open>
  Modelled from the spec: \<open>RunNested\<close> (section 4.2). The nested exchange is run by the
  \<open>autogen\<close> library, which is not among the sources; the wrapper only registers the
  link. Following the spec, the exchange starts with the triggering message sent by
  \<open>fromRole\<close> (\<open>sender\<close>), the two participants alternate, the exchange ends as soon as
  the termination predicate of a participant fires on its own outgoing message or
  \<open>maxNestedRounds\<close> (\<open>max_turns\<close>) turns were exchanged, and the summary policy
  reduces the transcript to one message. \<open>reply\<close> is the backend producing the reply of
  an agent to the turns so far, \<open>terminates\<close> the termination predicate of an agent,
  and \<open>other_policy\<close> any summary policy apart from the last message verbatim.
\<close>

fun nested_turns ::
    "(agent \<Rightarrow> string list \<Rightarrow> string) \<Rightarrow> (agent \<Rightarrow> string \<Rightarrow> bool) \<Rightarrow> nat \<Rightarrow>
     agent \<Rightarrow> agent \<Rightarrow> string \<Rightarrow> string list \<Rightarrow> string list" where
  "nested_turns reply terminates 0 a b msg transcript = transcript"
| "nested_turns reply terminates (Suc n) a b msg transcript =
     (let transcript' = transcript @ [msg]
      in if terminates a msg then transcript'
         else nested_turns reply terminates n b a (reply b transcript') transcript')"

definition nested_transcript ::
    "(agent \<Rightarrow> string list \<Rightarrow> string) \<Rightarrow> (agent \<Rightarrow> string \<Rightarrow> bool) \<Rightarrow> nested_chat \<Rightarrow> string \<Rightarrow> string list" where
  "nested_transcript reply terminates link triggeringMessage =
     nested_turns reply terminates (max_turns link) (sender link) (recipient link)
       triggeringMessage []"

definition RunNested ::
    "(agent \<Rightarrow> string list \<Rightarrow> string) \<Rightarrow> (agent \<Rightarrow> string \<Rightarrow> bool) \<Rightarrow>
     (string \<Rightarrow> string list \<Rightarrow> string) \<Rightarrow> nested_chat \<Rightarrow> string \<Rightarrow> string" where
  "RunNested reply terminates other_policy link triggeringMessage =
     (let transcript = nested_transcript reply terminates link triggeringMessage
      in if summary_method link = ''last_msg''
         then (if transcript = [] then [] else last transcript)
         else other_policy (summary_method link) transcript)"

section \<open>Observations and sample inputs\<close>

text \<open>Whether a call of \<open>__initialize_agents\<close> returned a registry that holds a role.\<close>

definition registry_has :: "(exn + (string \<rightharpoonup> agent)) \<Rightarrow> string \<Rightarrow> bool" where
  "registry_has r k = (case r of Inl e \<Rightarrow> False | Inr m \<Rightarrow> m k \<noteq> None)"

text \<open>A prompt table with the three keys the wrapper reads, and a process state with a key.\<close>

definition sample_prompts :: prompts where
  "sample_prompts =
     [''USER_AGENT_PROMPT'' \<mapsto> ''You are the user.'',
      ''BROWSER_NAV_EXECUTOR_PROMPT'' \<mapsto> ''You execute browser skills.'',
      ''COMMAND_EXECUTION_PROMPT'' \<mapsto>
        ''Execute the user task '' @ [CHR 0x22] @ ''$command'' @ [CHR 0x22]
          @ '' $current_url_prompt_segment'']"

definition sample_world :: world where
  "sample_world = \<lparr>environ = [''OPENAI_API_KEY'' \<mapsto> ''sk-test''], dotenv = Map.empty, tempfiles = []\<rparr>"

definition default_roles :: "string list" where
  "default_roles = [''user_proxy'', ''browser_nav_executor'', ''planner_agent'', ''browser_nav_agent'']"

text \<open>The registry built from the default role list with the sample prompts.\<close>

definition sample_executor :: agent where
  "sample_executor =
     UserProxyAgent ''browser_nav_executor'' ''You execute browser skills.''
       browser_nav_executor_is_termination_msg ''NEVER'' 50
       (Some \<lparr>last_n_messages = 1, work_dir = ''tasks'', use_docker = False\<rparr>)"

definition sample_registry :: "string \<rightharpoonup> agent" where
  "sample_registry =
     [''user_proxy'' \<mapsto>
        UserProxyAgent ''user_proxy'' ''You are the user.'' user_proxy_is_termination_msg
          ''NEVER'' 50 None,
      ''browser_nav_executor'' \<mapsto> sample_executor,
      ''planner_agent'' \<mapsto> PlannerAgent_agent None,
      ''browser_nav_agent'' \<mapsto> BrowserNavAgent_agent None sample_executor]"

text \<open>
  The history the library hands to the callback when the link fires on the first reply of
  the planner: the prompt the initiator sent, then the reply of the planner.
\<close>

definition sample_history :: "message list" where
  "sample_history =
     [[''content'' \<mapsto> Some (codes ''Execute the user task''),
       ''role'' \<mapsto> Some (codes ''assistant'')],
      [''content'' \<mapsto> Some (codes ''Step 1: open the page''),
       ''role'' \<mapsto> Some (codes ''user'')]]"

text \<open>A backend whose conversation fails with a given exception.\<close>

definition failing_chat :: "exn \<Rightarrow> chat" where
  "failing_chat e = (\<lambda>up pl prompt. Some e)"

section \<open>String lemmas\<close>

lemma sentinel_codes: "codes ''##TERMINATE##'' = [35,35,84,69,82,77,73,78,65,84,69,35,35]"
  by (simp add: codes_def)

lemma endswith_Nil: "suffix \<noteq> [] \<Longrightarrow> \<not> endswith [] suffix"
  by (simp add: endswith_def)

lemma endswith_iff_append: "endswith s suffix \<longleftrightarrow> (\<exists>p. s = p @ suffix)"
proof
  assume "endswith s suffix"
  then have "s = take (length s - length suffix) s @ suffix"
    by (metis append_take_drop_id endswith_def)
  then show "\<exists>p. s = p @ suffix" ..
next
  assume "\<exists>p. s = p @ suffix"
  then show "endswith s suffix" by (auto simp: endswith_def)
qed

lemma rstrip_Nil: "rstrip [] = []"
  by (simp add: rstrip_def)

lemma upper_Nil: "upper [] = []"
  by (simp add: upper_def)

lemma isspace_iff:
  "isspace c \<longleftrightarrow>
     c \<in> {9, 10, 11, 12, 13, 28, 29, 30, 31, 32, 133, 160, 5760, 8192, 8193, 8194, 8195, 8196,
          8197, 8198, 8199, 8200, 8201, 8202, 8232, 8233, 8239, 8287, 12288}"
  unfolding isspace_def by (simp only: insert_iff empty_iff) arith

lemma rstrip_decompose:
  "\<exists>ws. s = rstrip s @ ws \<and> (\<forall>c \<in> set ws. isspace c)"
proof -
  have "rev s = takeWhile isspace (rev s) @ dropWhile isspace (rev s)"
    by simp
  then have "rev (rev s) = rev (takeWhile isspace (rev s) @ dropWhile isspace (rev s))"
    by (rule arg_cong)
  then have "s = rstrip s @ rev (takeWhile isspace (rev s))"
    by (simp only: rev_rev_ident rev_append rstrip_def)
  moreover have "\<forall>c \<in> set (rev (takeWhile isspace (rev s))). isspace c"
    by (auto dest: set_takeWhileD)
  ultimately show ?thesis by blast
qed

lemma rstrip_append:
  assumes "\<forall>c \<in> set ws. isspace c" and "b \<noteq> []" and "\<not> isspace (last b)"
  shows "rstrip (b @ ws) = b"
proof -
  have "\<And>x. x \<in> set (rev ws) \<Longrightarrow> isspace x"
    using assms(1) by simp
  then have "dropWhile isspace (rev ws @ rev b) = dropWhile isspace (rev b)"
    by (rule dropWhile_append2)
  also have "\<dots> = rev b"
  proof (cases "rev b")
    case Nil
    with assms(2) show ?thesis by simp
  next
    case (Cons y ys)
    then have "b = rev ys @ [y]" by (metis rev.simps(2) rev_rev_ident)
    then have "last b = y" by simp
    with assms(3) Cons show ?thesis by simp
  qed
  finally show ?thesis by (simp add: rstrip_def)
qed

section \<open>The upper-case mapping\<close>

lemma upper_ranges_high:
  "list_all (\<lambda>r. case r of (lo, hi, step, u) \<Rightarrow> 128 \<le> u) upper_ranges"
  by (simp add: upper_ranges_def)

lemma upper_special_facts:
  "list_all (\<lambda>e. case e of (c, v) \<Rightarrow>
      v \<noteq> [] \<and> 35 \<notin> set v \<and> (list_all (\<lambda>y. y \<in> {35, 84, 69, 82, 77, 73, 78, 65}) v \<longrightarrow> c = 305 \<and> v = [73]))
     upper_special"
  by (simp add: upper_special_def)

lemma to_upper_cases:
  obtains (ascii) "c < 128" "to_upper c = [if 97 \<le> c \<and> c \<le> 122 then c - 32 else c]"
    | (special) v where "128 \<le> c" "to_upper c = v" "v \<noteq> []" "35 \<notin> set v"
        "list_all (\<lambda>y. y \<in> {35, 84, 69, 82, 77, 73, 78, 65}) v \<longrightarrow> c = 305 \<and> v = [73]"
    | (high) u where "128 \<le> c" "to_upper c = [u]" "128 \<le> u"
proof (cases "c < 128")
  case True
  then show ?thesis by (intro ascii) (simp_all add: to_upper_def)
next
  case False
  show ?thesis
  proof (cases "map_of upper_special c")
    case (Some v)
    then have "(c, v) \<in> set upper_special" by (rule map_of_SomeD)
    with upper_special_facts have
      "v \<noteq> [] \<and> 35 \<notin> set v \<and>
       (list_all (\<lambda>y. y \<in> {35, 84, 69, 82, 77, 73, 78, 65}) v \<longrightarrow> c = 305 \<and> v = [73])"
      unfolding list_all_iff by fast
    with False Some show ?thesis by (intro special [of v]) (simp_all add: to_upper_def)
  next
    case None
    show ?thesis
    proof (cases "find (in_range c) upper_ranges")
      case fNone: None
      with False None show ?thesis by (intro high [of c]) (simp_all add: to_upper_def)
    next
      case (Some r)
      obtain lo hi step u where r: "r = (lo, hi, step, u)" by (cases r) auto
      from Some have "r \<in> set upper_ranges"
        by (auto simp: find_Some_iff)
      with upper_ranges_high r have "128 \<le> u"
        unfolding list_all_iff by fast
      with False None Some r show ?thesis
        by (intro high [of "u + (c - lo)"]) (simp_all add: to_upper_def)
    qed
  qed
qed

lemma to_upper_nonempty: "to_upper c \<noteq> []"
  by (cases c rule: to_upper_cases) simp_all

lemma to_upper_hash: "35 \<in> set (to_upper c) \<Longrightarrow> to_upper c = [35]"
  by (cases c rule: to_upper_cases) (auto split: if_splits)

lemma to_upper_within:
  assumes "set (to_upper c) \<subseteq> {35, 84, 69, 82, 77, 73, 78, 65}"
  shows "\<exists>x. to_upper c = [x]"
proof (cases c rule: to_upper_cases)
  case (special v)
  from assms special(2) have "list_all (\<lambda>y. y \<in> {35, 84, 69, 82, 77, 73, 78, 65}) v"
    unfolding list_all_iff by blast
  with special show ?thesis by simp
qed simp_all

lemma to_upper_single:
  assumes "x \<in> {35, 84, 69, 82, 77, 73, 78, 65}"
  shows "to_upper c = [x] \<longleftrightarrow> c = x \<or> (65 \<le> x \<and> x \<le> 90 \<and> c = x + 32) \<or> (x = 73 \<and> c = 305)"
proof
  assume u: "to_upper c = [x]"
  show "c = x \<or> (65 \<le> x \<and> x \<le> 90 \<and> c = x + 32) \<or> (x = 73 \<and> c = 305)"
  proof (cases c rule: to_upper_cases)
    case ascii
    with u show ?thesis by (auto split: if_splits)
  next
    case (special v)
    with u assms have "list_all (\<lambda>y. y \<in> {35, 84, 69, 82, 77, 73, 78, 65}) v" by simp
    with special u show ?thesis by simp
  next
    case (high h)
    with u assms show ?thesis by auto
  qed
next
  assume "c = x \<or> (65 \<le> x \<and> x \<le> 90 \<and> c = x + 32) \<or> (x = 73 \<and> c = 305)"
  then consider "c = x" | "65 \<le> x" "x \<le> 90" "c = x + 32" | "x = 73" "c = 305" by blast
  then show "to_upper c = [x]"
  proof cases
    case 1
    with assms show ?thesis by (auto simp: to_upper_def)
  next
    case 2
    then show ?thesis by (simp add: to_upper_def)
  next
    case 3
    then show ?thesis by (simp add: to_upper_def upper_special_def)
  qed
qed

lemma upper_suffix_aligned:
  "set S \<subseteq> {35, 84, 69, 82, 77, 73, 78, 65} \<Longrightarrow> (S \<noteq> [] \<longrightarrow> hd S = 35) \<Longrightarrow>
   concat (map to_upper p) = q @ S \<Longrightarrow>
   \<exists>p' t. p = p' @ t \<and> list_all2 (\<lambda>c x. to_upper c = [x]) t S"
proof (induction S arbitrary: p q rule: rev_induct)
  case Nil
  then show ?case by auto
next
  case (snoc x S0)
  have sub0: "set S0 \<subseteq> {35, 84, 69, 82, 77, 73, 78, 65}" using snoc.prems(1) by simp
  have hd0: "S0 \<noteq> [] \<longrightarrow> hd S0 = 35" using snoc.prems(2) by (cases S0) simp_all
  have "p \<noteq> []" using snoc.prems(3) by auto
  then obtain p0 c where p: "p = p0 @ [c]" by (metis rev_exhaust)
  from snoc.prems(3) have eq: "concat (map to_upper p0) @ to_upper c = (q @ S0) @ [x]"
    by (simp add: p)
  obtain w y where wy: "to_upper c = w @ [y]"
    using to_upper_nonempty [of c] by (metis rev_exhaust)
  from eq wy have y: "y = x" and rest: "concat (map to_upper p0) @ w = q @ S0"
    by simp_all
  have "w = []"
  proof (rule ccontr)
    assume w: "w \<noteq> []"
    from rest consider
        (inside) k where "q = concat (map to_upper p0) @ k" "w = k @ S0"
      | (across) k where "concat (map to_upper p0) = q @ k" "S0 = k @ w"
      by (auto simp: append_eq_append_conv2)
    then show False
    proof cases
      case inside
      then have uc: "to_upper c = k @ S0 @ [x]" using wy y by simp
      show False
      proof (cases "k = []")
        case True
        with uc have "set (to_upper c) \<subseteq> {35, 84, 69, 82, 77, 73, 78, 65}"
          using snoc.prems(1) by simp
        then obtain z where "to_upper c = [z]" using to_upper_within by blast
        with wy w show False by simp
      next
        case False
        have "hd (S0 @ [x]) = 35" using snoc.prems(2) by simp
        then have "35 \<in> set (S0 @ [x])" by (metis hd_in_set snoc_eq_iff_butlast)
        with uc have "35 \<in> set (to_upper c)" by auto
        then have "to_upper c = [35]" by (rule to_upper_hash)
        with wy w show False by simp
      qed
    next
      case across
      with wy y have "set (to_upper c) \<subseteq> set (S0 @ [x])" by auto
      with snoc.prems(1) have "set (to_upper c) \<subseteq> {35, 84, 69, 82, 77, 73, 78, 65}" by blast
      then obtain z where "to_upper c = [z]" using to_upper_within by blast
      with wy w show False by simp
    qed
  qed
  with wy y rest have single: "to_upper c = [x]" and rest': "concat (map to_upper p0) = q @ S0"
    by simp_all
  from snoc.IH [OF sub0 hd0 rest'] obtain p' t0 where
    "p0 = p' @ t0" "list_all2 (\<lambda>c x. to_upper c = [x]) t0 S0" by blast
  with single p have "p = p' @ (t0 @ [c]) \<and> list_all2 (\<lambda>c x. to_upper c = [x]) (t0 @ [c]) (S0 @ [x])"
    by (simp add: list_all2_appendI)
  then show ?case by blast
qed

lemma list_all2_member_mono:
  assumes "list_all2 P xs ys" and "\<And>a b. b \<in> set ys \<Longrightarrow> P a b \<Longrightarrow> Q a b"
  shows "list_all2 Q xs ys"
  using assms by (auto simp: list_all2_conv_all_nth)

lemma concat_singletons:
  "list_all2 (\<lambda>c x. f c = [x]) t S \<Longrightarrow> concat (map f t) = S"
  by (induction t S rule: list_all2_induct) simp_all

lemma fold_match_iff:
  "list_all2 (\<lambda>c x. to_upper c = [x]) t [35, 35, 84, 69, 82, 77, 73, 78, 65, 84, 69, 35, 35] \<longleftrightarrow>
   list_all2 (\<lambda>c u. c = u \<or> (65 \<le> u \<and> u \<le> 90 \<and> c = u + 32) \<or> (u = 73 \<and> c = 305)) t
     [35, 35, 84, 69, 82, 77, 73, 78, 65, 84, 69, 35, 35]"
proof
  assume "list_all2 (\<lambda>c x. to_upper c = [x]) t [35, 35, 84, 69, 82, 77, 73, 78, 65, 84, 69, 35, 35]"
  then show "list_all2 (\<lambda>c u. c = u \<or> (65 \<le> u \<and> u \<le> 90 \<and> c = u + 32) \<or> (u = 73 \<and> c = 305)) t
     [35, 35, 84, 69, 82, 77, 73, 78, 65, 84, 69, 35, 35]"
  proof (rule list_all2_member_mono)
    fix a b :: nat
    assume "b \<in> set [35, 35, 84, 69, 82, 77, 73, 78, 65, 84, 69, 35, 35]"
    then have "b \<in> {35, 84, 69, 82, 77, 73, 78, 65}" by auto
    moreover assume "to_upper a = [b]"
    ultimately show "a = b \<or> (65 \<le> b \<and> b \<le> 90 \<and> a = b + 32) \<or> (b = 73 \<and> a = 305)"
      using to_upper_single by blast
  qed
next
  assume "list_all2 (\<lambda>c u. c = u \<or> (65 \<le> u \<and> u \<le> 90 \<and> c = u + 32) \<or> (u = 73 \<and> c = 305)) t
     [35, 35, 84, 69, 82, 77, 73, 78, 65, 84, 69, 35, 35]"
  then show "list_all2 (\<lambda>c x. to_upper c = [x]) t [35, 35, 84, 69, 82, 77, 73, 78, 65, 84, 69, 35, 35]"
  proof (rule list_all2_member_mono)
    fix a b :: nat
    assume "b \<in> set [35, 35, 84, 69, 82, 77, 73, 78, 65, 84, 69, 35, 35]"
    then have "b \<in> {35, 84, 69, 82, 77, 73, 78, 65}" by auto
    moreover assume "a = b \<or> (65 \<le> b \<and> b \<le> 90 \<and> a = b + 32) \<or> (b = 73 \<and> a = 305)"
    ultimately show "to_upper a = [b]"
      using to_upper_single by blast
  qed
qed

lemma fold_match_last:
  assumes "list_all2 (\<lambda>c u. c = u \<or> (65 \<le> u \<and> u \<le> 90 \<and> c = u + 32) \<or> (u = 73 \<and> c = 305))
     (t :: nat list) [35, 35, 84, 69, 82, 77, 73, 78, 65, 84, 69, 35, 35]"
  shows "t \<noteq> [] \<and> last t = 35"
proof -
  from assms have len: "length t = 13"
    by (auto dest: list_all2_lengthD)
  from assms have "t ! 12 = (35::nat) \<or> (65 \<le> (35::nat) \<and> (35::nat) \<le> 90 \<and> t ! 12 = 35 + 32) \<or>
                   ((35::nat) = 73 \<and> t ! 12 = 305)"
    using list_all2_nthD2 [of _ t "[35, 35, 84, 69, 82, 77, 73, 78, 65, 84, 69, 35, 35]" 12]
    by fastforce
  then have "t ! 12 = 35" by simp
  moreover from len have "t \<noteq> []" by auto
  moreover from len this have "last t = t ! 12" by (simp add: last_conv_nth)
  ultimately show ?thesis by simp
qed

section \<open>Termination predicates\<close>

lemma termination_lambda_truthy:
  "sentinel \<noteq> [] \<Longrightarrow>
   truthy (termination_lambda sentinel x) \<longleftrightarrow>
     (\<exists>s. x ''content'' = Some (Some s) \<and> endswith (upper (rstrip s)) sentinel)"
  by (auto simp: termination_lambda_def get_content_def rstrip_Nil upper_Nil endswith_Nil
           split: option.splits)

text \<open>
  C6. The termination predicate of \<open>user_proxy\<close> fires on a message with content \<open>s\<close>
  exactly when \<open>s\<close> is some text, then thirteen code points that spell
  \<open>##TERMINATE##\<close> (code points 35 35 84 69 82 77 73 78 65 84 69 35 35) up to case, then
  nothing but whitespace. Up to case means: the code point itself, or the lower-case
  ASCII letter of an upper-case one, or U+0131 (dotless i) for \<open>I\<close>, which are all the
  code points that \<open>str.upper\<close> sends there. Whitespace is the class that
  \<open>str.rstrip()\<close> removes.
\<close>

theorem user_proxy_termination_iff:
  "truthy (user_proxy_is_termination_msg (x(''content'' \<mapsto> Some s))) \<longleftrightarrow>
     (\<exists>p t ws.
        s = p @ t @ ws \<and>
        (\<forall>c \<in> set ws.
           c \<in> {9, 10, 11, 12, 13, 28, 29, 30, 31, 32, 133, 160, 5760, 8192, 8193, 8194, 8195,
                8196, 8197, 8198, 8199, 8200, 8201, 8202, 8232, 8233, 8239, 8287, 12288}) \<and>
        list_all2 (\<lambda>c u. c = u \<or> (65 \<le> u \<and> u \<le> 90 \<and> c = u + 32) \<or> (u = 73 \<and> c = 305)) t
          [35, 35, 84, 69, 82, 77, 73, 78, 65, 84, 69, 35, 35])"
  (is "?L \<longleftrightarrow> ?R")
proof -
  let ?S = "[35, 35, 84, 69, 82, 77, 73, 78, 65, 84, 69, 35, 35] :: nat list"
  have fires: "?L \<longleftrightarrow> endswith (upper (rstrip s)) ?S"
    by (simp add: user_proxy_is_termination_msg_def termination_lambda_truthy sentinel_codes)
  show ?thesis
  proof
    assume ?L
    with fires obtain q where q: "concat (map to_upper (rstrip s)) = q @ ?S"
      by (auto simp: endswith_iff_append upper_def)
    have "\<exists>p' t. rstrip s = p' @ t \<and> list_all2 (\<lambda>c x. to_upper c = [x]) t ?S"
      using q by (intro upper_suffix_aligned [of ?S _ q]) simp_all
    then obtain p t where pt: "rstrip s = p @ t"
      and t: "list_all2 (\<lambda>c x. to_upper c = [x]) t ?S" by blast
    obtain ws where ws: "s = rstrip s @ ws" "\<forall>c \<in> set ws. isspace c"
      using rstrip_decompose by blast
    from ws pt have "s = p @ t @ ws" by simp
    moreover from ws(2) have "\<forall>c \<in> set ws.
           c \<in> {9, 10, 11, 12, 13, 28, 29, 30, 31, 32, 133, 160, 5760, 8192, 8193, 8194, 8195,
                8196, 8197, 8198, 8199, 8200, 8201, 8202, 8232, 8233, 8239, 8287, 12288}"
      by (simp only: isspace_iff)
    moreover note t [unfolded fold_match_iff]
    ultimately show ?R by blast
  next
    assume ?R
    then obtain p t ws where s: "s = p @ t @ ws"
      and ws: "\<forall>c \<in> set ws.
           c \<in> {9, 10, 11, 12, 13, 28, 29, 30, 31, 32, 133, 160, 5760, 8192, 8193, 8194, 8195,
                8196, 8197, 8198, 8199, 8200, 8201, 8202, 8232, 8233, 8239, 8287, 12288}"
      and t: "list_all2 (\<lambda>c u. c = u \<or> (65 \<le> u \<and> u \<le> 90 \<and> c = u + 32) \<or> (u = 73 \<and> c = 305)) t ?S"
      by blast
    from ws have ws': "\<forall>c \<in> set ws. isspace c"
      by (simp only: isspace_iff)
    from fold_match_last [OF t] have tl: "t \<noteq> []" "last t = 35" by simp_all
    have "\<not> isspace (last (p @ t))"
      using tl by (simp add: isspace_def)
    with ws' tl(1) have "rstrip ((p @ t) @ ws) = p @ t"
      by (intro rstrip_append) simp_all
    then have r: "rstrip s = p @ t" by (simp add: s)
    from t have "list_all2 (\<lambda>c x. to_upper c = [x]) t ?S"
      by (simp only: fold_match_iff)
    then have "concat (map to_upper t) = ?S" by (rule concat_singletons)
    then have "upper (rstrip s) = upper p @ ?S"
      by (simp add: r upper_def)
    then have "endswith (upper (rstrip s)) ?S"
      unfolding endswith_iff_append by blast
    with fires show ?L by simp
  qed
qed

theorem user_proxy_termination_iff_witness:
  "truthy (user_proxy_is_termination_msg
     [''content'' \<mapsto> Some (codes ''done ##Term'' @ [305] @ codes ''nate##'' @ [160, 10, 8232])])"
proof -
  let ?p = "codes ''done ''" and ?t = "codes ''##Term'' @ [305] @ codes ''nate##''"
  let ?ws = "[160, 10, 8232] :: nat list"
  have "codes ''done ##Term'' @ [305] @ codes ''nate##'' @ [160, 10, 8232] = ?p @ ?t @ ?ws"
    by (simp add: codes_def)
  moreover have "\<forall>c \<in> set ?ws.
           c \<in> {9, 10, 11, 12, 13, 28, 29, 30, 31, 32, 133, 160, 5760, 8192, 8193, 8194, 8195,
                8196, 8197, 8198, 8199, 8200, 8201, 8202, 8232, 8233, 8239, 8287, 12288}"
    by simp
  moreover have "list_all2 (\<lambda>c u. c = u \<or> (65 \<le> u \<and> u \<le> 90 \<and> c = u + 32) \<or> (u = 73 \<and> c = 305)) ?t
          [35, 35, 84, 69, 82, 77, 73, 78, 65, 84, 69, 35, 35]"
    by (simp add: codes_def)
  ultimately show ?thesis
    using user_proxy_termination_iff
      [of Map.empty "codes ''done ##Term'' @ [305] @ codes ''nate##'' @ [160, 10, 8232]"]
    by blast
qed

text \<open>
  C10. On a message whose content is missing or is the empty string, neither the
  predicate of \<open>user_proxy\<close> nor that of \<open>browser_nav_executor\<close> fires.
\<close>

theorem empty_content_never_terminates:
  "x ''content'' = None \<or> x ''content'' = Some (Some []) \<Longrightarrow>
     \<not> truthy (user_proxy_is_termination_msg x) \<and>
     \<not> truthy (browser_nav_executor_is_termination_msg x)"
  by (auto simp: user_proxy_is_termination_msg_def browser_nav_executor_is_termination_msg_def
        termination_lambda_truthy rstrip_Nil upper_Nil endswith_Nil codes_def)

theorem empty_content_never_terminates_witness:
  "((Map.empty :: message) ''content'' = None \<or>
      (Map.empty :: message) ''content'' = Some (Some [])) \<and>
   \<not> truthy (user_proxy_is_termination_msg Map.empty) \<and>
   \<not> truthy (browser_nav_executor_is_termination_msg Map.empty) \<and>
   \<not> truthy (user_proxy_is_termination_msg [''content'' \<mapsto> Some []]) \<and>
   \<not> truthy (browser_nav_executor_is_termination_msg [''content'' \<mapsto> Some []])"
  using empty_content_never_terminates [of Map.empty]
        empty_content_never_terminates [of "[''content'' \<mapsto> Some []]"]
  by simp

section \<open>Registry construction\<close>

lemma add_agents_unknown:
  "x \<in> set l \<Longrightarrow> x \<noteq> ''browser_nav_agent'' \<Longrightarrow> x \<noteq> ''planner_agent'' \<Longrightarrow>
     \<exists>a. a \<in> set l \<and> a \<noteq> ''browser_nav_agent'' \<and> a \<noteq> ''planner_agent'' \<and>
         add_agents self ex l m = Inl (ValueError (''Unknown agent type: '' @ a))"
proof (induction l arbitrary: m)
  case Nil
  then show ?case by simp
next
  case (Cons y ys)
  show ?case
  proof (cases "y = ''browser_nav_agent'' \<or> y = ''planner_agent''")
    case True
    with Cons.prems have "x \<in> set ys" by auto
    from Cons.IH [OF this Cons.prems(2,3)] True show ?thesis
      by (auto simp del: fun_upd_apply)
  next
    case False
    then show ?thesis by auto
  qed
qed

lemma add_agents_Inr:
  "add_agents self ex l m0 = Inr m \<Longrightarrow>
     set l \<subseteq> {''browser_nav_agent'', ''planner_agent''} \<and>
     m = (\<lambda>k. if k = ''browser_nav_agent'' \<and> k \<in> set l
                 then Some (create_browser_nav_agent self ex)
               else if k = ''planner_agent'' \<and> k \<in> set l
                 then Some (create_planner_agent self)
               else m0 k)"
proof (induction l arbitrary: m0)
  case Nil
  then show ?case by simp
next
  case (Cons y ys)
  show ?case
  proof (cases "y = ''browser_nav_agent''")
    case True
    with Cons.prems have
      "add_agents self ex ys (m0(''browser_nav_agent'' \<mapsto> create_browser_nav_agent self ex)) = Inr m"
      by (simp add: reset_def)
    from Cons.IH [OF this] True show ?thesis
      by (auto simp: fun_eq_iff)
  next
    case False
    note nb = this
    show ?thesis
    proof (cases "y = ''planner_agent''")
      case True
      with Cons.prems have
        "add_agents self ex ys (m0(''planner_agent'' \<mapsto> create_planner_agent self)) = Inr m"
        by (simp add: reset_def)
      from Cons.IH [OF this] True show ?thesis
        by (auto simp: fun_eq_iff)
    next
      case False
      with nb Cons.prems show ?thesis by simp
    qed
  qed
qed

lemma initialize_agents_Inr:
  assumes "fst (initialize_agents LLM_PROMPTS self agents_needed) = Inr m"
  obtains up ex where
    "create_user_proxy_agent LLM_PROMPTS self = Inr up"
    "create_browser_nav_executor_agent LLM_PROMPTS self = Inr ex"
    "''user_proxy'' \<in> set agents_needed"
    "''browser_nav_executor'' \<in> set agents_needed"
    "add_agents self ex (remove1 ''browser_nav_executor'' (remove1 ''user_proxy'' agents_needed))
       [''user_proxy'' \<mapsto> up, ''browser_nav_executor'' \<mapsto> ex] = Inr m"
  using assms
  by (auto simp: initialize_agents_def Let_def reset_def split: if_splits sum.splits)

lemma sample_build:
  "initialize_agents sample_prompts (init 50) default_roles =
     (Inr sample_registry, [''planner_agent'', ''browser_nav_agent''])"
  by (simp add: initialize_agents_def sample_prompts_def init_def default_roles_def
        sample_registry_def sample_executor_def create_user_proxy_agent_def
        create_browser_nav_executor_agent_def create_browser_nav_agent_def
        create_planner_agent_def getitem_def reset_def)

lemma unknown_role_no_registry:
  assumes "a \<in> set agents_needed"
      and "a \<notin> {''user_proxy'', ''browser_nav_executor'', ''planner_agent'', ''browser_nav_agent''}"
  shows "\<exists>e. fst (initialize_agents LLM_PROMPTS self agents_needed) = Inl e"
proof (cases "fst (initialize_agents LLM_PROMPTS self agents_needed)")
  case (Inl e)
  then show ?thesis by blast
next
  case (Inr m)
  then obtain ex up where
    "add_agents self ex (remove1 ''browser_nav_executor'' (remove1 ''user_proxy'' agents_needed))
       [''user_proxy'' \<mapsto> up, ''browser_nav_executor'' \<mapsto> ex] = Inr m"
    by (rule initialize_agents_Inr)
  then have "set (remove1 ''browser_nav_executor'' (remove1 ''user_proxy'' agents_needed))
               \<subseteq> {''browser_nav_agent'', ''planner_agent''}"
    by (blast dest: add_agents_Inr)
  moreover from assms
  have "a \<in> set (remove1 ''browser_nav_executor'' (remove1 ''user_proxy'' agents_needed))"
    by (simp add: in_set_remove1)
  ultimately show ?thesis using assms(2) by blast
qed

lemma unknown_role_error:
  assumes "a \<in> set agents_needed"
      and "a \<notin> {''user_proxy'', ''browser_nav_executor'', ''planner_agent'', ''browser_nav_agent''}"
      and "''user_proxy'' \<in> set agents_needed"
      and "''browser_nav_executor'' \<in> set agents_needed"
      and "LLM_PROMPTS ''USER_AGENT_PROMPT'' \<noteq> None"
      and "LLM_PROMPTS ''BROWSER_NAV_EXECUTOR_PROMPT'' \<noteq> None"
  shows "\<exists>b. b \<in> set agents_needed \<and> b \<noteq> ''browser_nav_agent'' \<and> b \<noteq> ''planner_agent'' \<and>
             fst (initialize_agents LLM_PROMPTS self agents_needed) =
               Inl (ValueError (''Unknown agent type: '' @ b))"
proof -
  let ?l = "remove1 ''browser_nav_executor'' (remove1 ''user_proxy'' agents_needed)"
  obtain pu pe where pu: "LLM_PROMPTS ''USER_AGENT_PROMPT'' = Some pu"
    and pe: "LLM_PROMPTS ''BROWSER_NAV_EXECUTOR_PROMPT'' = Some pe"
    using assms(5,6) by blast
  obtain up where up: "create_user_proxy_agent LLM_PROMPTS self = Inr up"
    by (simp add: create_user_proxy_agent_def getitem_def pu)
  obtain ex where ex: "create_browser_nav_executor_agent LLM_PROMPTS self = Inr ex"
    by (simp add: create_browser_nav_executor_agent_def getitem_def pe)
  have ex_in: "''browser_nav_executor'' \<in> set (remove1 ''user_proxy'' agents_needed)"
    using assms(4) by (simp add: in_set_remove1)
  have run: "fst (initialize_agents LLM_PROMPTS self agents_needed) =
               add_agents self ex ?l [''user_proxy'' \<mapsto> up, ''browser_nav_executor'' \<mapsto> ex]"
    using assms(3) ex_in by (simp add: initialize_agents_def up ex Let_def reset_def)
  from assms(1,2) have "a \<in> set ?l" by (simp add: in_set_remove1)
  moreover from assms(2) have "a \<noteq> ''browser_nav_agent''" "a \<noteq> ''planner_agent''" by auto
  ultimately obtain b where b: "b \<in> set ?l" "b \<noteq> ''browser_nav_agent''" "b \<noteq> ''planner_agent''"
    "add_agents self ex ?l [''user_proxy'' \<mapsto> up, ''browser_nav_executor'' \<mapsto> ex] =
       Inl (ValueError (''Unknown agent type: '' @ b))"
    using add_agents_unknown by blast
  from b(1) have "b \<in> set agents_needed"
    by (meson notin_set_remove1)
  with b run show ?thesis by auto
qed

lemma create_no_registry:
  assumes "\<And>self. \<exists>e. fst (initialize_agents LLM_PROMPTS self agents_needed) = Inl e"
  shows "raised (create LLM_PROMPTS (Some agents_needed) max_chat_round w) \<noteq> None \<and>
         agents_map (self_after (create LLM_PROMPTS (Some agents_needed) max_chat_round w)) = None"
proof (cases "getitem ((dotenv w ++ environ w)(''AUTOGEN_USE_DOCKER'' \<mapsto> ''False'')) ''OPENAI_API_KEY''")
  case (Inl e)
  then show ?thesis
    by (simp add: create_def load_dotenv_def init_def Let_def)
next
  case (Inr key)
  let ?self1 = "init max_chat_round\<lparr>config_list :=
       Some (config_list_from_json [[(''model'', ''gpt-4-turbo-preview''), (''api_key'', key)]])\<rparr>"
  obtain e l where "initialize_agents LLM_PROMPTS ?self1 agents_needed = (Inl e, l)"
    using assms [of ?self1] by (cases "initialize_agents LLM_PROMPTS ?self1 agents_needed") auto
  with Inr show ?thesis
    by (simp add: create_def load_dotenv_def Let_def init_def)
qed

text \<open>
  C2. When the list of requested roles does not contain \<open>user_proxy\<close>,
  \<open>__initialize_agents\<close> raises the \<open>ValueError\<close> that names the missing required role
  and returns no agent map; \<open>create\<close> then fails with \<open>agents_map\<close> still unset.
\<close>

theorem missing_initiator_fails:
  "''user_proxy'' \<notin> set agents_needed \<Longrightarrow>
     initialize_agents LLM_PROMPTS self agents_needed =
       (Inl (ValueError ''user_proxy agent is required in the list of needed agents.''),
        agents_needed) \<and>
     raised (create LLM_PROMPTS (Some agents_needed) max_chat_round w) \<noteq> None \<and>
     agents_map (self_after (create LLM_PROMPTS (Some agents_needed) max_chat_round w)) = None"
  by (auto simp: initialize_agents_def create_def init_def Let_def split: sum.splits prod.splits)

theorem missing_initiator_fails_witness:
  "''user_proxy'' \<notin> set [''planner_agent'', ''browser_nav_agent''] \<and>
   initialize_agents sample_prompts (init 50) [''planner_agent'', ''browser_nav_agent''] =
     (Inl (ValueError ''user_proxy agent is required in the list of needed agents.''),
      [''planner_agent'', ''browser_nav_agent'']) \<and>
   raised (create sample_prompts (Some [''planner_agent'', ''browser_nav_agent'']) 50 sample_world)
     \<noteq> None \<and>
   agents_map (self_after
     (create sample_prompts (Some [''planner_agent'', ''browser_nav_agent'']) 50 sample_world)) = None"
  using missing_initiator_fails
          [of "[''planner_agent'', ''browser_nav_agent'']" sample_prompts "init 50" 50 sample_world]
  by simp

text \<open>
  C3, as stated, fails: a list with an unrecognised role and without \<open>user_proxy\<close> is
  rejected by the check for the required role, which comes first, so the error is the
  missing-role error and not the unknown-role one.
\<close>

theorem unknown_role_without_initiator:
  "fst (initialize_agents sample_prompts (init 50) [''browser_nav_agent'', ''summarizer'']) =
     Inl (ValueError ''user_proxy agent is required in the list of needed agents.'')"
  by (simp add: initialize_agents_def)

text \<open>
  C3, amended. When the list of requested roles holds a name outside
  \<open>user_proxy\<close>, \<open>browser_nav_executor\<close>, \<open>planner_agent\<close>, \<open>browser_nav_agent\<close>,
  \<open>__initialize_agents\<close> raises and returns no registry, and \<open>create\<close> fails with
  \<open>agents_map\<close> still unset. When the list also holds \<open>user_proxy\<close> and
  \<open>browser_nav_executor\<close> (and the two role prompts exist), the exception is the
  \<open>ValueError\<close> "Unknown agent type", naming an entry of the list.
\<close>

theorem unknown_role_fails:
  assumes "a \<in> set agents_needed"
      and "a \<notin> {''user_proxy'', ''browser_nav_executor'', ''planner_agent'', ''browser_nav_agent''}"
  shows "(\<exists>e. fst (initialize_agents LLM_PROMPTS self agents_needed) = Inl e) \<and>
         raised (create LLM_PROMPTS (Some agents_needed) max_chat_round w) \<noteq> None \<and>
         agents_map (self_after (create LLM_PROMPTS (Some agents_needed) max_chat_round w)) = None \<and>
         (''user_proxy'' \<in> set agents_needed \<and> ''browser_nav_executor'' \<in> set agents_needed \<and>
          LLM_PROMPTS ''USER_AGENT_PROMPT'' \<noteq> None \<and>
          LLM_PROMPTS ''BROWSER_NAV_EXECUTOR_PROMPT'' \<noteq> None \<longrightarrow>
            (\<exists>b. b \<in> set agents_needed \<and> b \<noteq> ''browser_nav_agent'' \<and> b \<noteq> ''planner_agent'' \<and>
                 fst (initialize_agents LLM_PROMPTS self agents_needed) =
                   Inl (ValueError (''Unknown agent type: '' @ b))))"
proof (intro conjI impI)
  show "\<exists>e. fst (initialize_agents LLM_PROMPTS self agents_needed) = Inl e"
    using assms by (rule unknown_role_no_registry)
  have all: "\<And>s. \<exists>e. fst (initialize_agents LLM_PROMPTS s agents_needed) = Inl e"
    using assms by (rule unknown_role_no_registry)
  from create_no_registry [of LLM_PROMPTS agents_needed max_chat_round w, OF all]
  show "raised (create LLM_PROMPTS (Some agents_needed) max_chat_round w) \<noteq> None"
    and "agents_map (self_after (create LLM_PROMPTS (Some agents_needed) max_chat_round w)) = None"
    by simp_all
next
  assume "''user_proxy'' \<in> set agents_needed \<and> ''browser_nav_executor'' \<in> set agents_needed \<and>
          LLM_PROMPTS ''USER_AGENT_PROMPT'' \<noteq> None \<and>
          LLM_PROMPTS ''BROWSER_NAV_EXECUTOR_PROMPT'' \<noteq> None"
  with assms show "\<exists>b. b \<in> set agents_needed \<and> b \<noteq> ''browser_nav_agent'' \<and> b \<noteq> ''planner_agent'' \<and>
                 fst (initialize_agents LLM_PROMPTS self agents_needed) =
                   Inl (ValueError (''Unknown agent type: '' @ b))"
    by (intro unknown_role_error) simp_all
qed

theorem unknown_role_fails_witness:
  "''summarizer'' \<in> set [''user_proxy'', ''browser_nav_executor'', ''browser_nav_agent'', ''summarizer''] \<and>
   ''summarizer'' \<notin> {''user_proxy'', ''browser_nav_executor'', ''planner_agent'', ''browser_nav_agent''} \<and>
   fst (initialize_agents sample_prompts (init 50)
          [''user_proxy'', ''browser_nav_executor'', ''browser_nav_agent'', ''summarizer'']) =
     Inl (ValueError ''Unknown agent type: summarizer'') \<and>
   raised (create sample_prompts
             (Some [''user_proxy'', ''browser_nav_executor'', ''browser_nav_agent'', ''summarizer''])
             50 sample_world) \<noteq> None \<and>
   agents_map (self_after (create sample_prompts
             (Some [''user_proxy'', ''browser_nav_executor'', ''browser_nav_agent'', ''summarizer''])
             50 sample_world)) = None"
proof -
  let ?l = "[''user_proxy'', ''browser_nav_executor'', ''browser_nav_agent'', ''summarizer'']"
  have h1: "''summarizer'' \<in> set ?l" by simp
  have h2: "''summarizer'' \<notin> {''user_proxy'', ''browser_nav_executor'', ''planner_agent'', ''browser_nav_agent''}"
    by simp
  have h3: "''user_proxy'' \<in> set ?l \<and> ''browser_nav_executor'' \<in> set ?l \<and>
            sample_prompts ''USER_AGENT_PROMPT'' \<noteq> None \<and>
            sample_prompts ''BROWSER_NAV_EXECUTOR_PROMPT'' \<noteq> None"
    by (simp add: sample_prompts_def)
  from unknown_role_fails [OF h1 h2, of sample_prompts "init 50" 50 sample_world] h3
  obtain b where b: "b \<in> set ?l" "b \<noteq> ''browser_nav_agent''" "b \<noteq> ''planner_agent''"
      "fst (initialize_agents sample_prompts (init 50) ?l) = Inl (ValueError (''Unknown agent type: '' @ b))"
    and r: "raised (create sample_prompts (Some ?l) 50 sample_world) \<noteq> None"
           "agents_map (self_after (create sample_prompts (Some ?l) 50 sample_world)) = None"
    by blast
  have "fst (initialize_agents sample_prompts (init 50) ?l) = Inl (ValueError ''Unknown agent type: summarizer'')"
    by (simp add: initialize_agents_def sample_prompts_def init_def create_user_proxy_agent_def
        create_browser_nav_executor_agent_def getitem_def)
  with h1 h2 r show ?thesis by simp
qed

text \<open>
  C7, as stated, fails: from the roles \<open>user_proxy\<close> and \<open>browser_nav_executor\<close> the
  registry holds the executor and no navigator.
\<close>

theorem executor_without_navigator:
  "registry_has (fst (initialize_agents sample_prompts (init 50) [''user_proxy'', ''browser_nav_executor'']))
     ''browser_nav_executor'' \<and>
   \<not> registry_has (fst (initialize_agents sample_prompts (init 50) [''user_proxy'', ''browser_nav_executor'']))
     ''browser_nav_agent''"
  by (simp add: registry_has_def initialize_agents_def sample_prompts_def init_def
        create_user_proxy_agent_def create_browser_nav_executor_agent_def getitem_def)

text \<open>
  C7, amended. Every registry that \<open>__initialize_agents\<close> returns holds
  \<open>browser_nav_executor\<close>, which is built whether or not a navigator was requested,
  and holds \<open>browser_nav_agent\<close> exactly when \<open>browser_nav_agent\<close> was requested; the
  navigator is then built from that executor. So a returned registry never has a
  navigator without its executor, while it has the executor without a navigator when no
  navigator was requested.
\<close>

theorem executor_always_navigator_on_request:
  assumes "fst (initialize_agents LLM_PROMPTS self agents_needed) = Inr m"
  shows "\<exists>ex. create_browser_nav_executor_agent LLM_PROMPTS self = Inr ex \<and>
              m ''browser_nav_executor'' = Some ex \<and>
              m ''browser_nav_agent'' =
                (if ''browser_nav_agent'' \<in> set agents_needed
                 then Some (BrowserNavAgent_agent (config_list self) ex) else None)"
proof -
  let ?l = "remove1 ''browser_nav_executor'' (remove1 ''user_proxy'' agents_needed)"
  from assms obtain up ex where
    ex: "create_browser_nav_executor_agent LLM_PROMPTS self = Inr ex"
    and run: "add_agents self ex ?l [''user_proxy'' \<mapsto> up, ''browser_nav_executor'' \<mapsto> ex] = Inr m"
    by (rule initialize_agents_Inr)
  have nav: "''browser_nav_agent'' \<in> set ?l \<longleftrightarrow> ''browser_nav_agent'' \<in> set agents_needed"
    by (simp add: in_set_remove1)
  from add_agents_Inr [OF run]
  have m: "m = (\<lambda>k. if k = ''browser_nav_agent'' \<and> k \<in> set ?l
                 then Some (create_browser_nav_agent self ex)
               else if k = ''planner_agent'' \<and> k \<in> set ?l
                 then Some (create_planner_agent self)
               else [''user_proxy'' \<mapsto> up, ''browser_nav_executor'' \<mapsto> ex] k)"
    by simp
  have "m ''browser_nav_executor'' = Some ex"
    by (subst m) simp
  moreover have "m ''browser_nav_agent'' =
      (if ''browser_nav_agent'' \<in> set agents_needed
       then Some (BrowserNavAgent_agent (config_list self) ex) else None)"
    by (subst m) (simp add: nav create_browser_nav_agent_def)
  ultimately show ?thesis using ex by simp
qed

theorem executor_always_navigator_on_request_witness:
  "fst (initialize_agents sample_prompts (init 50) default_roles) = Inr sample_registry \<and>
   sample_registry ''browser_nav_executor'' = Some sample_executor \<and>
   sample_registry ''browser_nav_agent'' = Some (BrowserNavAgent_agent None sample_executor)"
proof -
  have h: "fst (initialize_agents sample_prompts (init 50) default_roles) = Inr sample_registry"
    by (simp add: sample_build)
  have ex: "create_browser_nav_executor_agent sample_prompts (init 50) = Inr sample_executor"
    by (simp add: create_browser_nav_executor_agent_def sample_prompts_def getitem_def init_def
          sample_executor_def)
  have cl: "config_list (init 50) = None"
    by (simp add: init_def)
  have nav: "''browser_nav_agent'' \<in> set default_roles"
    by (simp add: default_roles_def)
  from executor_always_navigator_on_request [OF h] h show ?thesis
    by (simp add: ex cl nav)
qed

text \<open>
  A request that names the navigator and not the executor reaches the unguarded
  \<open>agents_needed.remove("browser_nav_executor")\<close> of line 111, which raises; no
  registry is returned.
\<close>

lemma navigator_only_request_raises:
  "initialize_agents sample_prompts (init 50) [''user_proxy'', ''browser_nav_agent''] =
     (Inl (ValueError ''list.remove(x): x not in list''), [''browser_nav_agent''])"
  by (simp add: initialize_agents_def sample_prompts_def init_def create_user_proxy_agent_def
        create_browser_nav_executor_agent_def getitem_def)

section \<open>\<open>create\<close>: repeated builds and the delegation link\<close>

lemma create_unfold:
  "create LLM_PROMPTS agents_needed max_chat_round w =
     (let needed =
            (case agents_needed of
               None \<Rightarrow> [''user_proxy'', ''browser_nav_executor'', ''planner_agent'', ''browser_nav_agent'']
             | Some l \<Rightarrow> l);
          self0 = init max_chat_round;
          w2 = w\<lparr>environ := env_step w\<rparr>
      in case getitem (env_step w) ''OPENAI_API_KEY'' of
           Inl e \<Rightarrow>
             \<lparr>raised = Some e, self_after = self0, world_after = w2, needed_after = needed,
              nested_chats = []\<rparr>
         | Inr key \<Rightarrow>
             let env_var = [[(''model'', ''gpt-4-turbo-preview''), (''api_key'', key)]];
                 w3 = w2\<lparr>tempfiles := tempfiles w @ [env_var]\<rparr>;
                 self1 = self0\<lparr>config_list := Some (config_list_from_json env_var)\<rparr>
             in case initialize_agents LLM_PROMPTS self1 needed of
                  (Inl e, needed') \<Rightarrow>
                    \<lparr>raised = Some e, self_after = self1, world_after = w3, needed_after = needed',
                     nested_chats = []\<rparr>
                | (Inr m, needed') \<Rightarrow>
                    let self2 = self1\<lparr>agents_map := Some m\<rparr>
                    in case register_nested_chats m of
                         Inl e \<Rightarrow>
                           \<lparr>raised = Some e, self_after = self2, world_after = w3,
                            needed_after = needed', nested_chats = []\<rparr>
                       | Inr r \<Rightarrow>
                           \<lparr>raised = None, self_after = self2, world_after = w3,
                            needed_after = needed', nested_chats = [r]\<rparr>)"
  by (simp add: create_def load_dotenv_def env_step_def Let_def split: sum.splits prod.splits)

lemma env_step_world_after:
  "env_step (world_after (create LLM_PROMPTS agents_needed max_chat_round w)) = env_step w"
proof -
  have env: "environ (world_after (create LLM_PROMPTS agents_needed max_chat_round w)) = env_step w"
    by (simp add: create_unfold Let_def split: sum.splits prod.splits)
  have dot: "dotenv (world_after (create LLM_PROMPTS agents_needed max_chat_round w)) = dotenv w"
    by (simp add: create_unfold Let_def split: sum.splits prod.splits)
  show ?thesis
    unfolding env_step_def [of "world_after (create LLM_PROMPTS agents_needed max_chat_round w)"] env dot
    by (auto simp: env_step_def fun_eq_iff map_add_def split: option.splits)
qed

lemma create_same_env:
  assumes "env_step w' = env_step w"
  shows "raised (create LLM_PROMPTS agents_needed max_chat_round w') =
           raised (create LLM_PROMPTS agents_needed max_chat_round w)"
    and "self_after (create LLM_PROMPTS agents_needed max_chat_round w') =
           self_after (create LLM_PROMPTS agents_needed max_chat_round w)"
    and "nested_chats (create LLM_PROMPTS agents_needed max_chat_round w') =
           nested_chats (create LLM_PROMPTS agents_needed max_chat_round w)"
    and "needed_after (create LLM_PROMPTS agents_needed max_chat_round w') =
           needed_after (create LLM_PROMPTS agents_needed max_chat_round w)"
    and "environ (world_after (create LLM_PROMPTS agents_needed max_chat_round w')) =
           environ (world_after (create LLM_PROMPTS agents_needed max_chat_round w))"
  by (simp_all add: create_unfold assms Let_def split: sum.splits prod.splits)

lemma tempfiles_create:
  "tempfiles (world_after (create LLM_PROMPTS agents_needed max_chat_round w)) =
     tempfiles w @
       (case getitem (env_step w) ''OPENAI_API_KEY'' of
          Inl e \<Rightarrow> []
        | Inr key \<Rightarrow> [[[(''model'', ''gpt-4-turbo-preview''), (''api_key'', key)]]])"
  by (simp add: create_unfold Let_def split: sum.splits prod.splits)

lemma sample_create_succeeds:
  "raised (create sample_prompts None 50 sample_world) = None"
  by (simp add: create_unfold env_step_def sample_world_def sample_prompts_def getitem_def
        initialize_agents_def init_def create_user_proxy_agent_def
        create_browser_nav_executor_agent_def register_nested_chats_def Let_def)

lemma environ_world_after:
  "environ (world_after (create LLM_PROMPTS agents_needed max_chat_round w)) = env_step w"
  by (simp add: create_unfold Let_def split: sum.splits prod.splits)

lemma length_remove1_mem: "x \<in> set xs \<Longrightarrow> length xs = Suc (length (remove1 x xs))"
  by (induction xs) auto

lemma initialize_agents_snd:
  assumes "fst (initialize_agents LLM_PROMPTS self agents_needed) = Inr m"
  shows "snd (initialize_agents LLM_PROMPTS self agents_needed) =
           remove1 ''browser_nav_executor'' (remove1 ''user_proxy'' agents_needed) \<and>
         length agents_needed =
           length (snd (initialize_agents LLM_PROMPTS self agents_needed)) + 2"
proof -
  from assms have up: "''user_proxy'' \<in> set agents_needed"
    by (auto simp: initialize_agents_def split: if_splits)
  from assms up obtain a where a: "create_user_proxy_agent LLM_PROMPTS self = Inr a"
    by (cases "create_user_proxy_agent LLM_PROMPTS self") (simp_all add: initialize_agents_def)
  from assms up a obtain b where b: "create_browser_nav_executor_agent LLM_PROMPTS self = Inr b"
    by (cases "create_browser_nav_executor_agent LLM_PROMPTS self")
       (simp_all add: initialize_agents_def Let_def)
  from assms up a b have ex: "''browser_nav_executor'' \<in> set (remove1 ''user_proxy'' agents_needed)"
    by (simp add: initialize_agents_def Let_def split: if_splits)
  from up a b ex have s: "snd (initialize_agents LLM_PROMPTS self agents_needed) =
              remove1 ''browser_nav_executor'' (remove1 ''user_proxy'' agents_needed)"
    by (simp add: initialize_agents_def Let_def)
  from length_remove1_mem [OF up] length_remove1_mem [OF ex] s show ?thesis by simp
qed

lemma create_returned_list:
  assumes "raised (create LLM_PROMPTS agents_needed max_chat_round w) = None"
  shows "\<exists>self m.
           fst (initialize_agents LLM_PROMPTS self
                  (case agents_needed of
                     None \<Rightarrow> [''user_proxy'', ''browser_nav_executor'', ''planner_agent'',
                               ''browser_nav_agent'']
                   | Some l \<Rightarrow> l)) = Inr m \<and>
           needed_after (create LLM_PROMPTS agents_needed max_chat_round w) =
             snd (initialize_agents LLM_PROMPTS self
                  (case agents_needed of
                     None \<Rightarrow> [''user_proxy'', ''browser_nav_executor'', ''planner_agent'',
                               ''browser_nav_agent'']
                   | Some l \<Rightarrow> l))"
proof (cases "getitem (env_step w) ''OPENAI_API_KEY''")
  case (Inl e)
  with assms show ?thesis by (simp add: create_unfold Let_def)
next
  case (Inr key)
  let ?needed = "case agents_needed of
                     None \<Rightarrow> [''user_proxy'', ''browser_nav_executor'', ''planner_agent'',
                               ''browser_nav_agent'']
                   | Some l \<Rightarrow> l"
  let ?self1 = "init max_chat_round\<lparr>config_list :=
       Some (config_list_from_json [[(''model'', ''gpt-4-turbo-preview''), (''api_key'', key)]])\<rparr>"
  obtain r l where rl: "initialize_agents LLM_PROMPTS ?self1 ?needed = (r, l)"
    by (cases "initialize_agents LLM_PROMPTS ?self1 ?needed") auto
  show ?thesis
  proof (cases r)
    case (Inl e)
    with assms Inr rl show ?thesis by (simp add: create_unfold Let_def)
  next
    case r: (Inr m)
    have "needed_after (create LLM_PROMPTS agents_needed max_chat_round w) = l"
      using Inr rl r by (simp add: create_unfold Let_def split: sum.splits)
    with rl r show ?thesis
      by (intro exI [of _ ?self1] exI [of _ m]) simp
  qed
qed

text \<open>
  C9, as stated, fails. Building from the default roles succeeds, yet it removes
  \<open>user_proxy\<close> and \<open>browser_nav_executor\<close> from the list object it was given, so a
  second build from that same list fails for want of \<open>user_proxy\<close>; and \<open>create\<close>
  sets \<open>AUTOGEN_USE_DOCKER\<close> in the environment and leaves a temporary file holding
  the model configuration.
\<close>

theorem rebuild_from_same_list_fails:
  "fst (initialize_agents sample_prompts (init 50) default_roles) = Inr sample_registry \<and>
   snd (initialize_agents sample_prompts (init 50) default_roles) =
     [''planner_agent'', ''browser_nav_agent''] \<and>
   fst (initialize_agents sample_prompts (init 50)
          (snd (initialize_agents sample_prompts (init 50) default_roles))) =
     Inl (ValueError ''user_proxy agent is required in the list of needed agents.'') \<and>
   environ sample_world ''AUTOGEN_USE_DOCKER'' = None \<and>
   environ (world_after (create sample_prompts None 50 sample_world)) ''AUTOGEN_USE_DOCKER'' =
     Some ''False'' \<and>
   tempfiles sample_world = [] \<and>
   tempfiles (world_after (create sample_prompts None 50 sample_world)) =
     [[[(''model'', ''gpt-4-turbo-preview''), (''api_key'', ''sk-test'')]]]"
proof -
  have "fst (initialize_agents sample_prompts (init 50) [''planner_agent'', ''browser_nav_agent'']) =
          Inl (ValueError ''user_proxy agent is required in the list of needed agents.'')"
    by (simp add: initialize_agents_def)
  moreover have "environ (world_after (create sample_prompts None 50 sample_world))
                   ''AUTOGEN_USE_DOCKER'' = Some ''False''"
    by (simp add: create_unfold Let_def env_step_def split: sum.splits prod.splits)
  moreover have "tempfiles (world_after (create sample_prompts None 50 sample_world)) =
                   [[[(''model'', ''gpt-4-turbo-preview''), (''api_key'', ''sk-test'')]]]"
    by (simp add: tempfiles_create env_step_def sample_world_def getitem_def)
  ultimately show ?thesis
    by (simp add: sample_build sample_world_def)
qed

text \<open>
  C9, amended. Calling \<open>create\<close> a second time with the same arguments, in the process
  state the first call left, has the outcome of the first call: the same exception or
  none, the same wrapper (agents, prompts, termination predicates, round budgets,
  configuration list), the same delegation link, the same final contents of the role
  list and the same environment; the second call adds to the temporary files exactly what
  the first one added. A call is not free of side effects: it leaves
  \<open>AUTOGEN_USE_DOCKER\<close> set to \<open>False\<close> in the environment; when the API key is set it
  leaves one more temporary file, which holds the model configuration with the key; and
  when it returns, the role list has lost two entries, the first \<open>user_proxy\<close> and the
  first \<open>browser_nav_executor\<close>.
\<close>

theorem create_repeatable:
  "raised (create LLM_PROMPTS agents_needed max_chat_round
             (world_after (create LLM_PROMPTS agents_needed max_chat_round w))) =
     raised (create LLM_PROMPTS agents_needed max_chat_round w) \<and>
   self_after (create LLM_PROMPTS agents_needed max_chat_round
             (world_after (create LLM_PROMPTS agents_needed max_chat_round w))) =
     self_after (create LLM_PROMPTS agents_needed max_chat_round w) \<and>
   nested_chats (create LLM_PROMPTS agents_needed max_chat_round
             (world_after (create LLM_PROMPTS agents_needed max_chat_round w))) =
     nested_chats (create LLM_PROMPTS agents_needed max_chat_round w) \<and>
   needed_after (create LLM_PROMPTS agents_needed max_chat_round
             (world_after (create LLM_PROMPTS agents_needed max_chat_round w))) =
     needed_after (create LLM_PROMPTS agents_needed max_chat_round w) \<and>
   environ (world_after (create LLM_PROMPTS agents_needed max_chat_round
             (world_after (create LLM_PROMPTS agents_needed max_chat_round w)))) =
     environ (world_after (create LLM_PROMPTS agents_needed max_chat_round w)) \<and>
   tempfiles (world_after (create LLM_PROMPTS agents_needed max_chat_round
             (world_after (create LLM_PROMPTS agents_needed max_chat_round w)))) =
     tempfiles (world_after (create LLM_PROMPTS agents_needed max_chat_round w)) @
       drop (length (tempfiles w))
         (tempfiles (world_after (create LLM_PROMPTS agents_needed max_chat_round w))) \<and>
   environ (world_after (create LLM_PROMPTS agents_needed max_chat_round w))
     ''AUTOGEN_USE_DOCKER'' = Some ''False'' \<and>
   (\<forall>key.
      environ (world_after (create LLM_PROMPTS agents_needed max_chat_round w))
        ''OPENAI_API_KEY'' = Some key \<longrightarrow>
      tempfiles (world_after (create LLM_PROMPTS agents_needed max_chat_round w)) =
        tempfiles w @ [[[(''model'', ''gpt-4-turbo-preview''), (''api_key'', key)]]]) \<and>
   (raised (create LLM_PROMPTS agents_needed max_chat_round w) = None \<longrightarrow>
      environ (world_after (create LLM_PROMPTS agents_needed max_chat_round w))
        ''OPENAI_API_KEY'' \<noteq> None \<and>
      needed_after (create LLM_PROMPTS agents_needed max_chat_round w) =
        remove1 ''browser_nav_executor''
          (remove1 ''user_proxy''
             (case agents_needed of
                None \<Rightarrow> [''user_proxy'', ''browser_nav_executor'', ''planner_agent'',
                          ''browser_nav_agent'']
              | Some l \<Rightarrow> l)) \<and>
      length (case agents_needed of
                None \<Rightarrow> [''user_proxy'', ''browser_nav_executor'', ''planner_agent'',
                          ''browser_nav_agent'']
              | Some l \<Rightarrow> l) =
        length (needed_after (create LLM_PROMPTS agents_needed max_chat_round w)) + 2)"
proof -
  let ?o = "create LLM_PROMPTS agents_needed max_chat_round w"
  let ?w' = "world_after ?o"
  let ?L = "case agents_needed of
                None \<Rightarrow> [''user_proxy'', ''browser_nav_executor'', ''planner_agent'',
                          ''browser_nav_agent'']
              | Some l \<Rightarrow> l"
  have e: "env_step ?w' = env_step w"
    by (rule env_step_world_after)
  have t: "tempfiles (world_after (create LLM_PROMPTS agents_needed max_chat_round ?w')) =
             tempfiles ?w' @ drop (length (tempfiles w)) (tempfiles ?w')"
    by (simp add: tempfiles_create [of _ _ _ ?w'] e) (simp add: tempfiles_create)
  have env: "environ ?w' = env_step w"
    by (rule environ_world_after)
  have docker: "environ ?w' ''AUTOGEN_USE_DOCKER'' = Some ''False''"
    by (simp add: env env_step_def)
  have files: "tempfiles ?w' =
        tempfiles w @ [[[(''model'', ''gpt-4-turbo-preview''), (''api_key'', key)]]]"
    if "environ ?w' ''OPENAI_API_KEY'' = Some key" for key
    using that by (simp add: tempfiles_create env getitem_def)
  have ret: "environ ?w' ''OPENAI_API_KEY'' \<noteq> None \<and>
             needed_after ?o = remove1 ''browser_nav_executor'' (remove1 ''user_proxy'' ?L) \<and>
             length ?L = length (needed_after ?o) + 2"
    if r: "raised ?o = None"
  proof -
    have "getitem (env_step w) ''OPENAI_API_KEY'' \<noteq> Inl (KeyError ''OPENAI_API_KEY'')"
      using r by (auto simp: create_unfold Let_def)
    then have k: "environ ?w' ''OPENAI_API_KEY'' \<noteq> None"
      by (auto simp: env getitem_def split: option.splits)
    from create_returned_list [OF r] obtain self m where
      "fst (initialize_agents LLM_PROMPTS self ?L) = Inr m"
      "needed_after ?o = snd (initialize_agents LLM_PROMPTS self ?L)"
      by blast
    with initialize_agents_snd [of LLM_PROMPTS self ?L m] k show ?thesis by simp
  qed
  from create_same_env [OF e] t docker files ret show ?thesis
    by (intro conjI allI impI) simp_all
qed

theorem create_repeatable_witness:
  "raised (create sample_prompts None 50 sample_world) = None \<and>
   raised (create sample_prompts None 50
             (world_after (create sample_prompts None 50 sample_world))) = None \<and>
   environ (world_after (create sample_prompts None 50 sample_world)) ''OPENAI_API_KEY'' =
     Some ''sk-test'' \<and>
   environ (world_after (create sample_prompts None 50 sample_world)) ''AUTOGEN_USE_DOCKER'' =
     Some ''False'' \<and>
   tempfiles (world_after (create sample_prompts None 50 sample_world)) =
     tempfiles sample_world @ [[[(''model'', ''gpt-4-turbo-preview''), (''api_key'', ''sk-test'')]]] \<and>
   needed_after (create sample_prompts None 50 sample_world) =
     [''planner_agent'', ''browser_nav_agent'']"
proof -
  have r: "raised (create sample_prompts None 50 sample_world) = None"
    by (rule sample_create_succeeds)
  have k: "environ (world_after (create sample_prompts None 50 sample_world)) ''OPENAI_API_KEY'' =
             Some ''sk-test''"
    by (simp add: environ_world_after env_step_def sample_world_def)
  from create_repeatable [of sample_prompts None 50 sample_world] r k
  show ?thesis by simp
qed

section \<open>The delegation link\<close>

lemma nested_turns_length:
  "length (nested_turns reply terminates n a b msg transcript) \<le> length transcript + n"
proof (induction n arbitrary: a b msg transcript)
  case 0
  show ?case by simp
next
  case (Suc n)
  have "length (nested_turns reply terminates n b a (reply b (transcript @ [msg])) (transcript @ [msg]))
          \<le> length (transcript @ [msg]) + n"
    by (rule Suc.IH)
  then show ?case by (simp add: Let_def)
qed

lemma nested_turns_full:
  "\<forall>a msg. \<not> terminates a msg \<Longrightarrow>
     length (nested_turns reply terminates n a b msg transcript) = length transcript + n"
proof (induction n arbitrary: a b msg transcript)
  case 0
  show ?case by simp
next
  case (Suc n)
  have ih: "length (nested_turns reply terminates n b a (reply b (transcript @ [msg])) (transcript @ [msg]))
          = length (transcript @ [msg]) + n"
    using Suc.prems by (rule Suc.IH)
  have nt: "\<not> terminates a msg"
    using Suc.prems by simp
  show ?case using ih nt by (simp add: Let_def)
qed

lemma nested_turns_prefix:
  "\<exists>later. nested_turns reply terminates n a b msg transcript = transcript @ later"
proof (induction n arbitrary: a b msg transcript)
  case 0
  show ?case by simp
next
  case (Suc n)
  obtain later where
    "nested_turns reply terminates n b a (reply b (transcript @ [msg])) (transcript @ [msg]) =
       (transcript @ [msg]) @ later"
    using Suc.IH by blast
  then show ?case
    by (cases "terminates a msg") (simp_all add: Let_def)
qed

lemma nested_turns_extends:
  "\<exists>later. nested_turns reply terminates (Suc n) a b msg transcript = transcript @ msg # later"
proof -
  obtain later where
    "nested_turns reply terminates n b a (reply b (transcript @ [msg])) (transcript @ [msg]) =
       (transcript @ [msg]) @ later"
    using nested_turns_prefix by blast
  then show ?thesis
    by (cases "terminates a msg") (simp_all add: Let_def)
qed

lemma register_nested_chats_Inr:
  assumes "register_nested_chats m = Inr r"
  shows "\<exists>ex nav pl.
           m ''browser_nav_executor'' = Some ex \<and> m ''browser_nav_agent'' = Some nav \<and>
           m ''planner_agent'' = Some pl \<and>
           r = \<lparr>trigger = pl,
                chat_queue =
                  [\<lparr>sender = ex, recipient = nav, message = nested_chat_message,
                    max_turns = 2, summary_method = ''last_msg''\<rparr>]\<rparr>"
  using assms
  by (auto simp: register_nested_chats_def getitem_def split: option.splits)

lemma create_returned:
  assumes "raised (create LLM_PROMPTS agents_needed max_chat_round w) = None"
  shows "\<exists>m r. agents_map (self_after (create LLM_PROMPTS agents_needed max_chat_round w)) = Some m \<and>
               register_nested_chats m = Inr r \<and>
               nested_chats (create LLM_PROMPTS agents_needed max_chat_round w) = [r]"
  using assms
  by (auto simp: create_unfold Let_def split: sum.splits prod.splits)

text \<open>
  C4. Whenever \<open>create\<close> returns, it has registered exactly one link on \<open>user_proxy\<close>,
  triggered by the planner, between \<open>browser_nav_executor\<close> and \<open>browser_nav_agent\<close>,
  with \<open>max_turns = 2\<close> and the summary method \<open>last_msg\<close>. A nested exchange run under
  that link starts with the triggering message, never has more than 2 turns (and has
  exactly 2 when no termination predicate fires), and gives back one message, the last
  of its transcript.
\<close>

theorem delegation_link_bounded_last_msg:
  assumes "raised (create LLM_PROMPTS agents_needed max_chat_round w) = None"
  shows "\<exists>m ex nav pl link.
           agents_map (self_after (create LLM_PROMPTS agents_needed max_chat_round w)) = Some m \<and>
           m ''browser_nav_executor'' = Some ex \<and> m ''browser_nav_agent'' = Some nav \<and>
           m ''planner_agent'' = Some pl \<and>
           nested_chats (create LLM_PROMPTS agents_needed max_chat_round w) =
             [\<lparr>trigger = pl, chat_queue = [link]\<rparr>] \<and>
           sender link = ex \<and> recipient link = nav \<and>
           max_turns link = 2 \<and> summary_method link = ''last_msg'' \<and>
           (\<forall>reply terminates other_policy seed.
              nested_transcript reply terminates link seed \<noteq> [] \<and>
              hd (nested_transcript reply terminates link seed) = seed \<and>
              length (nested_transcript reply terminates link seed) \<le> 2 \<and>
              ((\<forall>a msg. \<not> terminates a msg) \<longrightarrow>
                 length (nested_transcript reply terminates link seed) = 2) \<and>
              RunNested reply terminates other_policy link seed =
                last (nested_transcript reply terminates link seed))"
proof -
  from create_returned [OF assms] obtain m r where
    m: "agents_map (self_after (create LLM_PROMPTS agents_needed max_chat_round w)) = Some m"
    and r: "register_nested_chats m = Inr r"
    and n: "nested_chats (create LLM_PROMPTS agents_needed max_chat_round w) = [r]"
    by blast
  from register_nested_chats_Inr [OF r] obtain ex nav pl where
    roles: "m ''browser_nav_executor'' = Some ex" "m ''browser_nav_agent'' = Some nav"
           "m ''planner_agent'' = Some pl"
    and r_eq: "r = \<lparr>trigger = pl,
                chat_queue =
                  [\<lparr>sender = ex, recipient = nav, message = nested_chat_message,
                    max_turns = 2, summary_method = ''last_msg''\<rparr>]\<rparr>"
    by blast
  define link where
    "link = \<lparr>sender = ex, recipient = nav, message = nested_chat_message,
             max_turns = 2, summary_method = ''last_msg''\<rparr>"
  have fields: "sender link = ex" "recipient link = nav" "max_turns link = 2"
    "summary_method link = ''last_msg''"
    by (simp_all add: link_def)
  have run: "nested_transcript reply terminates link seed \<noteq> [] \<and>
             hd (nested_transcript reply terminates link seed) = seed \<and>
             length (nested_transcript reply terminates link seed) \<le> 2 \<and>
             ((\<forall>a msg. \<not> terminates a msg) \<longrightarrow>
                length (nested_transcript reply terminates link seed) = 2) \<and>
             RunNested reply terminates other_policy link seed =
               last (nested_transcript reply terminates link seed)"
    for reply terminates other_policy seed
  proof -
    have two: "max_turns link = Suc (Suc 0)"
      by (simp add: fields)
    obtain later where later:
      "nested_transcript reply terminates link seed = seed # later"
      unfolding nested_transcript_def two
      using nested_turns_extends [of reply terminates "Suc 0" "sender link" "recipient link" seed "[]"]
      by auto
    have len: "length (nested_transcript reply terminates link seed) \<le> 2"
      unfolding nested_transcript_def
      using nested_turns_length [of reply terminates "max_turns link" "sender link" "recipient link" seed "[]"]
      by (simp add: fields)
    have full: "(\<forall>a msg. \<not> terminates a msg) \<longrightarrow>
                  length (nested_transcript reply terminates link seed) = 2"
      unfolding nested_transcript_def
      using nested_turns_full [of terminates reply "max_turns link" "sender link" "recipient link" seed "[]"]
      by (simp add: fields)
    have "RunNested reply terminates other_policy link seed =
            last (nested_transcript reply terminates link seed)"
      by (simp add: RunNested_def fields later Let_def)
    with later len full show ?thesis by simp
  qed
  from m roles n r_eq fields run show ?thesis
    unfolding link_def [symmetric] by blast
qed

theorem delegation_link_bounded_last_msg_witness:
  "raised (create sample_prompts None 50 sample_world) = None \<and>
   map (map max_turns \<circ> chat_queue) (nested_chats (create sample_prompts None 50 sample_world)) = [[2]] \<and>
   map (map summary_method \<circ> chat_queue) (nested_chats (create sample_prompts None 50 sample_world)) =
     [[''last_msg'']]"
proof -
  have h: "raised (create sample_prompts None 50 sample_world) = None"
    by (rule sample_create_succeeds)
  from delegation_link_bounded_last_msg [OF h] obtain pl link where
    "nested_chats (create sample_prompts None 50 sample_world) = [\<lparr>trigger = pl, chat_queue = [link]\<rparr>]"
    "max_turns link = 2" "summary_method link = ''last_msg''"
    by blast
  with h show ?thesis by simp
qed

section \<open>The seed of the nested exchange\<close>

text \<open>
  C5, as stated, fails. When the link fires on the first reply of the planner, the
  history holds the prompt of the initiator and then the reply of the planner; the
  callback returns the content of the first entry, the prompt, not the reply.
\<close>

theorem nested_seed_is_first_message:
  "nested_chat_message (BrowserNavAgent_agent None sample_executor) sample_history
     (PlannerAgent_agent None) [] = Inr (codes ''Execute the user task'') \<and>
   getitem (last sample_history) ''content'' = Inr (Some (codes ''Step 1: open the page''))"
  by (simp add: nested_chat_message_def sample_history_def getitem_def)

text \<open>
  C5, amended. The nested exchange is seeded with the content of the first message of
  the history handed to the callback (\<open>messages[0]\<close>), formatted with \<open>str\<close>; this is
  the content of the latest message when the history holds that single message.
\<close>

theorem nested_chat_message_first:
  "messages = m0 # later \<Longrightarrow> m0 ''content'' = Some v \<Longrightarrow>
     nested_chat_message recipient_agent messages sender_agent config = Inr (str v) \<and>
     (later = [] \<longrightarrow>
        nested_chat_message recipient_agent messages sender_agent config =
          map_sum id str (getitem (last messages) ''content''))"
  by (simp add: nested_chat_message_def getitem_def)

theorem nested_chat_message_first_witness:
  "[[''content'' \<mapsto> Some (codes ''Step 1: open the page'')]] = [''content'' \<mapsto> Some (codes ''Step 1: open the page'')] # [] \<and>
   [''content'' \<mapsto> Some (codes ''Step 1: open the page'')] ''content'' = Some (Some (codes ''Step 1: open the page'')) \<and>
   nested_chat_message (BrowserNavAgent_agent None sample_executor)
     [[''content'' \<mapsto> Some (codes ''Step 1: open the page'')]] (PlannerAgent_agent None) [] =
     Inr (codes ''Step 1: open the page'')"
  using nested_chat_message_first
    [of "[[''content'' \<mapsto> Some (codes ''Step 1: open the page'')]]"
        "[''content'' \<mapsto> Some (codes ''Step 1: open the page'')]" "[]" "Some (codes ''Step 1: open the page'')"
        "BrowserNavAgent_agent None sample_executor" "PlannerAgent_agent None" "[]"]
  by simp

section \<open>Rendering the initial message\<close>

lemma substitute_literal:
  "CHR ''$'' \<notin> set pre \<Longrightarrow>
     substitute (pre @ t) mapping = map_sum id ((@) pre) (substitute t mapping)"
proof (induction pre)
  case Nil
  show ?case by (cases "substitute t mapping") simp_all
next
  case (Cons c cs)
  from Cons.prems have neq: "c \<noteq> CHR ''$''" and cs: "CHR ''$'' \<notin> set cs"
    by auto
  have IH: "substitute (cs @ t) mapping = map_sum id ((@) cs) (substitute t mapping)"
    using cs by (rule Cons.IH)
  have "substitute ((c # cs) @ t) mapping = map_sum id ((#) c) (substitute (cs @ t) mapping)"
    using neq by simp
  also have "\<dots> = map_sum id ((@) (c # cs)) (substitute t mapping)"
    unfolding IH by (cases "substitute t mapping") simp_all
  finally show ?case .
qed

lemma substitute_literal_only:
  "CHR ''$'' \<notin> set pre \<Longrightarrow> substitute pre mapping = Inr pre"
  using substitute_literal [of pre "[]" mapping] by simp

lemma dollar_not_id: "\<not> is_id_char (CHR ''$'')"
  by (simp add: is_id_char_def is_id_start_def)

lemma id_start_id_char: "is_id_start c \<Longrightarrow> is_id_char c"
  by (simp add: is_id_char_def)

lemma substitute_named:
  assumes "ident = d # ds" and "is_id_start d" and "\<forall>c \<in> set ds. is_id_char c"
      and "rest = [] \<or> \<not> is_id_char (hd rest)"
      and "mapping ident = Some v"
  shows "substitute (CHR ''$'' # ident @ rest) mapping = map_sum id ((@) v) (substitute rest mapping)"
proof -
  have all: "\<forall>c \<in> set ident. is_id_char c"
    using assms(1-3) by (simp add: id_start_id_char)
  have tw: "takeWhile is_id_char (ident @ rest) = ident"
    using all assms(4) by (cases rest) simp_all
  have dw: "dropWhile is_id_char (ident @ rest) = rest"
    using all assms(4) by (cases rest) simp_all
  have d: "d \<noteq> CHR ''$''"
    using assms(2) dollar_not_id id_start_id_char by blast
  have "substitute (CHR ''$'' # d # ds @ rest) mapping =
          (case getitem mapping (takeWhile is_id_char (d # ds @ rest)) of
             Inl e \<Rightarrow> Inl e
           | Inr v \<Rightarrow> map_sum id ((@) v) (substitute (dropWhile is_id_char (d # ds @ rest)) mapping))"
    using d assms(2) by simp
  with tw dw assms(1,5) show ?thesis
    by (simp add: getitem_def)
qed

lemma command_id_chars: "\<forall>c \<in> set ''ommand''. is_id_char c"
  by (simp add: is_id_char_def is_id_start_def)

lemma segment_id_chars: "\<forall>c \<in> set ''urrent_url_prompt_segment''. is_id_char c"
  by (simp add: is_id_char_def is_id_start_def)

lemma c_id_start: "is_id_start (CHR ''c'')"
  by (simp add: is_id_start_def)

lemma substitute_command_template:
  assumes "CHR ''$'' \<notin> set pre" and "CHR ''$'' \<notin> set mid" and "CHR ''$'' \<notin> set post"
      and "mid = [] \<or> \<not> is_id_char (hd mid)" and "post = [] \<or> \<not> is_id_char (hd post)"
  shows "substitute (pre @ ''$command'' @ mid @ ''$current_url_prompt_segment'' @ post)
           [''command'' \<mapsto> command, ''current_url_prompt_segment'' \<mapsto> seg] =
         Inr (pre @ command @ mid @ seg @ post)"
proof -
  let ?m = "[''command'' \<mapsto> command, ''current_url_prompt_segment'' \<mapsto> seg]"
  let ?t2 = "CHR ''$'' # ''current_url_prompt_segment'' @ post"
  have post: "substitute post ?m = Inr post"
    using assms(3) by (rule substitute_literal_only)
  have "substitute ?t2 ?m = map_sum id ((@) seg) (substitute post ?m)"
  proof (rule substitute_named [where d = "CHR ''c''" and ds = "''urrent_url_prompt_segment''"])
    show "''current_url_prompt_segment'' = CHR ''c'' # ''urrent_url_prompt_segment''" by simp
    show "?m ''current_url_prompt_segment'' = Some seg" by simp
  qed (rule c_id_start segment_id_chars assms(5))+
  then have seg: "substitute ?t2 ?m = Inr (seg @ post)"
    by (simp only: post map_sum.simps)
  have "substitute (mid @ ?t2) ?m = map_sum id ((@) mid) (substitute ?t2 ?m)"
    using assms(2) by (rule substitute_literal)
  then have mid: "substitute (mid @ ?t2) ?m = Inr (mid @ seg @ post)"
    by (simp only: seg map_sum.simps)
  have rest: "mid @ ?t2 = [] \<or> \<not> is_id_char (hd (mid @ ?t2))"
    using assms(4) by (cases mid) (simp_all add: dollar_not_id)
  have "substitute (CHR ''$'' # ''command'' @ (mid @ ?t2)) ?m =
          map_sum id ((@) command) (substitute (mid @ ?t2) ?m)"
  proof (rule substitute_named [where d = "CHR ''c''" and ds = "''ommand''"])
    show "''command'' = CHR ''c'' # ''ommand''" by simp
    show "?m ''command'' = Some command" by simp
  qed (rule c_id_start command_id_chars rest)+
  then have cmd: "substitute (CHR ''$'' # ''command'' @ (mid @ ?t2)) ?m =
                    Inr (command @ mid @ seg @ post)"
    by (simp only: mid map_sum.simps)
  have "substitute (pre @ (CHR ''$'' # ''command'' @ (mid @ ?t2))) ?m =
          map_sum id ((@) pre) (substitute (CHR ''$'' # ''command'' @ (mid @ ?t2)) ?m)"
    using assms(1) by (rule substitute_literal)
  then have "substitute (pre @ (CHR ''$'' # ''command'' @ (mid @ ?t2))) ?m =
               Inr (pre @ command @ mid @ seg @ post)"
    by (simp only: cmd map_sum.simps)
  moreover have "pre @ ''$command'' @ mid @ ''$current_url_prompt_segment'' @ post =
                 pre @ (CHR ''$'' # ''command'' @ (mid @ ?t2))"
    by simp
  ultimately show ?thesis by (simp only:)
qed

lemma sample_render:
  "render_prompt sample_prompts ''click login'' None =
     Inr (''Execute the user task '' @ [CHR 0x22] @ ''click login'' @ [CHR 0x22] @ '' '')"
  by code_simp

text \<open>
  C8, as stated, fails: with \<open>current_url\<close> supplied as the empty string the test
  \<open>if current_url\<close> is false, and the message is the one rendered without a URL.
\<close>

theorem empty_url_no_segment:
  "render_prompt sample_prompts ''click login'' (Some []) =
     Inr (''Execute the user task '' @ [CHR 0x22] @ ''click login'' @ [CHR 0x22] @ '' '') \<and>
   render_prompt sample_prompts ''click login'' (Some []) =
     render_prompt sample_prompts ''click login'' None"
  by code_simp

text \<open>
  C8, amended. For a command template made of literal text around the placeholders
  \<open>$command\<close> and \<open>$current_url_prompt_segment\<close>, and for every command string, the
  message is the template with the command in place of the first placeholder and, in
  place of the second, \<open>Current URL: \<close> followed by the URL when \<open>current_url\<close> is
  supplied and not empty, and nothing at all when it is \<open>None\<close> or empty.
\<close>

theorem render_prompt_segment:
  assumes "LLM_PROMPTS ''COMMAND_EXECUTION_PROMPT'' =
             Some (pre @ ''$command'' @ mid @ ''$current_url_prompt_segment'' @ post)"
      and "CHR ''$'' \<notin> set pre" and "CHR ''$'' \<notin> set mid" and "CHR ''$'' \<notin> set post"
      and "mid = [] \<or> \<not> is_id_char (hd mid)" and "post = [] \<or> \<not> is_id_char (hd post)"
  shows "render_prompt LLM_PROMPTS command current_url =
           (case current_url of
              None \<Rightarrow> Inr (pre @ command @ mid @ post)
            | Some u \<Rightarrow>
                if u = [] then Inr (pre @ command @ mid @ post)
                else Inr (pre @ command @ mid @ ''Current URL: '' @ u @ post))"
proof -
  have "render_prompt LLM_PROMPTS command current_url =
          Inr (pre @ command @ mid @ current_url_prompt_segment current_url @ post)"
    unfolding render_prompt_def getitem_def assms(1) option.case sum.case
    using assms(2-6) by (rule substitute_command_template)
  then show ?thesis
    by (simp add: current_url_prompt_segment_def split: option.splits)
qed

theorem render_prompt_segment_witness:
  "sample_prompts ''COMMAND_EXECUTION_PROMPT'' =
     Some ((''Execute the user task '' @ [CHR 0x22]) @ ''$command'' @ ([CHR 0x22] @ '' '')
             @ ''$current_url_prompt_segment'' @ []) \<and>
   CHR ''$'' \<notin> set (''Execute the user task '' @ [CHR 0x22]) \<and>
   CHR ''$'' \<notin> set ([CHR 0x22] @ '' '') \<and>
   \<not> is_id_char (hd ([CHR 0x22] @ '' '')) \<and>
   render_prompt sample_prompts ''click login'' (Some ''https://example.com'') =
     Inr (''Execute the user task '' @ [CHR 0x22] @ ''click login'' @ [CHR 0x22]
            @ '' Current URL: https://example.com'') \<and>
   render_prompt sample_prompts ''go to example.com'' None =
     Inr (''Execute the user task '' @ [CHR 0x22] @ ''go to example.com'' @ [CHR 0x22] @ '' '')"
proof -
  have h1: "sample_prompts ''COMMAND_EXECUTION_PROMPT'' =
     Some ((''Execute the user task '' @ [CHR 0x22]) @ ''$command'' @ ([CHR 0x22] @ '' '')
             @ ''$current_url_prompt_segment'' @ [])"
    by (simp add: sample_prompts_def)
  have h2: "CHR ''$'' \<notin> set (''Execute the user task '' @ [CHR 0x22])" by simp
  have h3: "CHR ''$'' \<notin> set ([CHR 0x22] @ '' '')" by simp
  have h4: "CHR ''$'' \<notin> set []" by simp
  have h5: "[CHR 0x22] @ '' '' = [] \<or> \<not> is_id_char (hd ([CHR 0x22] @ '' ''))"
    by (simp add: is_id_char_def is_id_start_def)
  have h6: "([] :: string) = [] \<or> \<not> is_id_char (hd [])" by simp
  have n5: "\<not> is_id_char (hd ([CHR 0x22] @ '' ''))"
    by (simp add: is_id_char_def is_id_start_def)
  note inst = render_prompt_segment
    [where LLM_PROMPTS = sample_prompts and pre = "''Execute the user task '' @ [CHR 0x22]"
       and mid = "[CHR 0x22] @ '' ''" and post = "[]", OF h1 h2 h3 h4 h5 h6]
  from inst [of "''click login''" "Some ''https://example.com''"]
       inst [of "''go to example.com''" None] h1 h2 h3 n5
  show ?thesis by simp
qed

section \<open>Failures in \<open>process_command\<close>\<close>

lemma process_command_unfold:
  assumes "render_prompt LLM_PROMPTS command current_url = Inr prompt"
  shows "process_command LLM_PROMPTS a_initiate_chat self command current_url =
           (case try_body a_initiate_chat self prompt of
              Some (BadRequestError bre) \<Rightarrow>
                (None,
                 [(''INFO'', ''Prompt for command: '' @ prompt),
                  (''ERROR'',
                   ''Unable to process command: '' @ [CHR 0x22] @ command @ [CHR 0x22] @ ''. '' @ bre)])
            | r \<Rightarrow> (r, [(''INFO'', ''Prompt for command: '' @ prompt)]))"
  by (simp add: process_command_def assms Let_def split: option.splits exn.splits)

text \<open>
  C1, as stated, fails: a rate-limit or a timeout error of the backend leaves
  \<open>process_command\<close>, and so does the \<open>ValueError\<close> raised inside the \<open>try\<close> block
  when the agents map is not initialised.
\<close>

theorem rate_limit_escapes_process_command:
  "fst (process_command sample_prompts (failing_chat (RateLimitError ''429''))
          (init 50\<lparr>agents_map := Some sample_registry\<rparr>) ''click login'' None) =
     Some (RateLimitError ''429'') \<and>
   fst (process_command sample_prompts (failing_chat (APITimeoutError ''timed out''))
          (init 50\<lparr>agents_map := Some sample_registry\<rparr>) ''click login'' None) =
     Some (APITimeoutError ''timed out'') \<and>
   fst (process_command sample_prompts (failing_chat (BadRequestError ''400''))
          (init 50) ''click login'' None) =
     Some (ValueError ''Agents map is not initialized.'')"
  by (simp add: process_command_unfold [OF sample_render] try_body_def init_def getitem_def
        sample_registry_def failing_chat_def)

text \<open>
  C1, amended. Once the prompt is rendered, \<open>process_command\<close> catches exactly
  \<open>openai.BadRequestError\<close>: it logs the command and the error and returns normally.
  Any other exception of the conversation, and the \<open>ValueError\<close> for an agents map that
  is not initialised, leave \<open>process_command\<close>; when the conversation returns, so does
  \<open>process_command\<close>.
\<close>

theorem process_command_catches_only_bad_request:
  assumes "render_prompt LLM_PROMPTS command current_url = Inr prompt"
  shows "(agents_map self = None \<longrightarrow>
            fst (process_command LLM_PROMPTS a_initiate_chat self command current_url) =
              Some (ValueError ''Agents map is not initialized.'')) \<and>
         (\<forall>m up pl.
            agents_map self = Some m \<and> m ''user_proxy'' = Some up \<and> m ''planner_agent'' = Some pl \<longrightarrow>
              (\<forall>bre. a_initiate_chat up pl prompt = Some (BadRequestError bre) \<longrightarrow>
                 process_command LLM_PROMPTS a_initiate_chat self command current_url =
                   (None,
                    [(''INFO'', ''Prompt for command: '' @ prompt),
                     (''ERROR'',
                      ''Unable to process command: '' @ [CHR 0x22] @ command @ [CHR 0x22]
                        @ ''. '' @ bre)])) \<and>
              (\<forall>e. a_initiate_chat up pl prompt = Some e \<and> (\<forall>bre. e \<noteq> BadRequestError bre) \<longrightarrow>
                 fst (process_command LLM_PROMPTS a_initiate_chat self command current_url) = Some e) \<and>
              (a_initiate_chat up pl prompt = None \<longrightarrow>
                 fst (process_command LLM_PROMPTS a_initiate_chat self command current_url) = None))"
proof (intro conjI allI impI)
  assume "agents_map self = None"
  then show "fst (process_command LLM_PROMPTS a_initiate_chat self command current_url) =
               Some (ValueError ''Agents map is not initialized.'')"
    by (simp add: process_command_unfold [OF assms] try_body_def)
next
  fix m up pl bre
  assume "agents_map self = Some m \<and> m ''user_proxy'' = Some up \<and> m ''planner_agent'' = Some pl"
    and "a_initiate_chat up pl prompt = Some (BadRequestError bre)"
  then show "process_command LLM_PROMPTS a_initiate_chat self command current_url =
               (None,
                [(''INFO'', ''Prompt for command: '' @ prompt),
                 (''ERROR'',
                  ''Unable to process command: '' @ [CHR 0x22] @ command @ [CHR 0x22]
                    @ ''. '' @ bre)])"
    by (simp add: process_command_unfold [OF assms] try_body_def getitem_def)
next
  fix m up pl e
  assume "agents_map self = Some m \<and> m ''user_proxy'' = Some up \<and> m ''planner_agent'' = Some pl"
    and "a_initiate_chat up pl prompt = Some e \<and> (\<forall>bre. e \<noteq> BadRequestError bre)"
  then show "fst (process_command LLM_PROMPTS a_initiate_chat self command current_url) = Some e"
    by (cases e) (simp_all add: process_command_unfold [OF assms] try_body_def getitem_def)
next
  fix m up pl
  assume "agents_map self = Some m \<and> m ''user_proxy'' = Some up \<and> m ''planner_agent'' = Some pl"
    and "a_initiate_chat up pl prompt = None"
  then show "fst (process_command LLM_PROMPTS a_initiate_chat self command current_url) = None"
    by (simp add: process_command_unfold [OF assms] try_body_def getitem_def)
qed

theorem process_command_catches_only_bad_request_witness:
  "render_prompt sample_prompts ''click login'' None =
     Inr (''Execute the user task '' @ [CHR 0x22] @ ''click login'' @ [CHR 0x22] @ '' '') \<and>
   process_command sample_prompts (failing_chat (BadRequestError ''400''))
       (init 50\<lparr>agents_map := Some sample_registry\<rparr>) ''click login'' None =
     (None,
      [(''INFO'', ''Prompt for command: Execute the user task '' @ [CHR 0x22] @ ''click login''
                    @ [CHR 0x22] @ '' ''),
       (''ERROR'', ''Unable to process command: '' @ [CHR 0x22] @ ''click login'' @ [CHR 0x22]
                    @ ''. 400'')]) \<and>
   fst (process_command sample_prompts (failing_chat (RateLimitError ''429''))
          (init 50\<lparr>agents_map := Some sample_registry\<rparr>) ''click login'' None) =
     Some (RateLimitError ''429'')"
proof -
  let ?self = "init 50\<lparr>agents_map := Some sample_registry\<rparr>"
  let ?up = "UserProxyAgent ''user_proxy'' ''You are the user.'' user_proxy_is_termination_msg
               ''NEVER'' 50 None"
  have m: "agents_map ?self = Some sample_registry \<and> sample_registry ''user_proxy'' = Some ?up \<and>
           sample_registry ''planner_agent'' = Some (PlannerAgent_agent None)"
    by (simp add: init_def sample_registry_def)
  note t = process_command_catches_only_bad_request [OF sample_render, of ?self]
  have "process_command sample_prompts (failing_chat (BadRequestError ''400'')) ?self ''click login'' None =
     (None,
      [(''INFO'', ''Prompt for command: '' @ (''Execute the user task '' @ [CHR 0x22] @ ''click login''
                    @ [CHR 0x22] @ '' '')),
       (''ERROR'', ''Unable to process command: '' @ [CHR 0x22] @ ''click login'' @ [CHR 0x22]
                    @ ''. '' @ ''400'')])"
    using t [of "failing_chat (BadRequestError ''400'')"] m
    by (simp add: failing_chat_def)
  moreover have "fst (process_command sample_prompts (failing_chat (RateLimitError ''429'')) ?self
                        ''click login'' None) = Some (RateLimitError ''429'')"
    using t [of "failing_chat (RateLimitError ''429'')"] m
    by (simp add: failing_chat_def)
  ultimately show ?thesis
    using sample_render by simp
qed

end
